theory Spec2Isabelle
  imports Main
begin

section \<open>Python values used by the driver\<close>

text \<open>
  The driver is Python. Its exceptions are values of \<open>py_error\<close>, and a call that may
  raise returns \<open>py_error + 'a\<close> with \<open>Inl\<close> for the raise.

  \<^item> \<open>RuntimeError msg\<close>: \<^verbatim>\<open>raise RuntimeError(msg)\<close> in controller.py.
  \<^item> \<open>ValueError msg\<close>: \<^verbatim>\<open>raise ValueError('Read the help')\<close> in axis.py.
  \<^item> \<open>InvalidLiteral s\<close>: the ValueError that \<^verbatim>\<open>int(s)\<close> raises on a text that
    is no integer. It is kept apart from the setter's own ValueError so that the origin
    of a raise stays visible.
  \<^item> \<open>IndexError\<close>: a list index out of range.
  \<^item> \<open>FormatError\<close>: the ValueError of \<^verbatim>\<open>str.format\<close> for a single brace;
    \<open>FormatIndexError\<close>: its IndexError for a field that names a missing argument.
  \<^item> \<open>Unmodelled\<close>: \<^verbatim>\<open>str.format\<close> met a replacement field outside the forms
    covered below; the model makes no statement on what Python does there.
\<close>

datatype py_error =
    RuntimeError string
  | ValueError string
  | InvalidLiteral string
  | IndexError
  | FormatError
  | FormatIndexError
  | Unmodelled

subsection \<open>Decimal text of an integer: \<^verbatim>\<open>'%d' % n\<close>, \<^verbatim>\<open>str(n)\<close>\<close>

definition digit_char :: "nat \<Rightarrow> char" where
  "digit_char d = char_of (48 + d)"

definition is_digit :: "char \<Rightarrow> bool" where
  "is_digit c = (48 \<le> (of_char c :: nat) \<and> (of_char c :: nat) \<le> 57)"

definition digit_val :: "char \<Rightarrow> nat" where
  "digit_val c = of_char c - 48"

fun str_nat :: "nat \<Rightarrow> string" where
  "str_nat n = (if n < 10 then [digit_char n] else str_nat (n div 10) @ [digit_char (n mod 10)])"

declare str_nat.simps [simp del]

definition str_int :: "int \<Rightarrow> string" where
  "str_int i = (if i < 0 then CHR ''-'' # str_nat (nat (- i)) else str_nat (nat i))"

subsection \<open>\<^verbatim>\<open>int(s)\<close> on a byte string\<close>

text \<open>
  \<^verbatim>\<open>int(s)\<close> strips leading and trailing whitespace, accepts one optional sign and
  then needs at least one decimal digit and nothing else. The whitespace is that of a
  Python 2 byte string (tab, LF, VT, FF, CR, space); the digit-group underscores of
  Python 3.6 and later are not part of the model.
\<close>

definition is_space :: "char \<Rightarrow> bool" where
  "is_space c = ((of_char c :: nat) = 32 \<or> (9 \<le> (of_char c :: nat) \<and> (of_char c :: nat) \<le> 13))"

definition py_strip :: "string \<Rightarrow> string" where
  "py_strip s = rev (dropWhile is_space (rev (dropWhile is_space s)))"

definition digits_val :: "string \<Rightarrow> nat" where
  "digits_val ds = foldl (\<lambda>acc c. 10 * acc + digit_val c) 0 ds"

definition py_digits :: "string \<Rightarrow> string \<Rightarrow> py_error + nat" where
  "py_digits whole ds =
     (if ds = [] then Inl (InvalidLiteral whole)
      else if list_all is_digit ds then Inr (digits_val ds)
      else Inl (InvalidLiteral whole))"

definition py_int :: "string \<Rightarrow> py_error + int" where
  "py_int s =
     (case py_strip s of
        [] \<Rightarrow> Inl (InvalidLiteral s)
      | c # r \<Rightarrow>
          if c = CHR ''-'' then map_sum id (\<lambda>n. - int n) (py_digits s r)
          else if c = CHR ''+'' then map_sum id int (py_digits s r)
          else map_sum id int (py_digits s (c # r)))"

subsection \<open>\<^verbatim>\<open>s.rsplit(sep)\<close> and indexing\<close>

text \<open>
  With no \<^verbatim>\<open>maxsplit\<close>, \<^verbatim>\<open>rsplit(sep)\<close> cuts at every separator, as
  \<^verbatim>\<open>split(sep)\<close> does; the result always has at least one field.
\<close>

fun py_rsplit :: "char \<Rightarrow> string \<Rightarrow> string list" where
  "py_rsplit sep [] = [[]]"
| "py_rsplit sep (c # cs) =
     (if c = sep then [] # py_rsplit sep cs
      else (case py_rsplit sep cs of
              [] \<Rightarrow> [[c]]
            | f # fs \<Rightarrow> (c # f) # fs))"

definition py_index :: "'a list \<Rightarrow> nat \<Rightarrow> py_error + 'a" where
  "py_index xs i = (if i < length xs then Inr (xs ! i) else Inl IndexError)"

section \<open>The transport\<close>

text \<open>
  \<^verbatim>\<open>SmaractCommunication\<close> (communication.py) is not among the sources. The driver
  uses one method of it, \<^verbatim>\<open>send_cmd(cmd)\<close>, which writes a command and returns the
  reply line. The far end is therefore a parameter: a state \<open>'d\<close> and a function
  \<open>R :: 'd \<Rightarrow> string \<Rightarrow> string \<times> 'd\<close> giving the reply to a command and the next state.
  The transport is taken to be reliable, as the specification does: every command gets
  a reply.

  The communication object carries the far end's state and the list of round-trips
  made so far (command, reply), oldest first.
\<close>

record 'd communication =
  dev :: 'd
  trace :: "(string \<times> string) list"

type_synonym 'd responder = "'d \<Rightarrow> string \<Rightarrow> string \<times> 'd"

definition comm_send_cmd ::
  "'d responder \<Rightarrow> 'd communication \<Rightarrow> string \<Rightarrow> string \<times> 'd communication" where
  "comm_send_cmd R c cmd =
     (case R (dev c) cmd of
        (ans, d') \<Rightarrow> (ans, \<lparr>dev = d', trace = trace c @ [(cmd, ans)]\<rparr>))"

section \<open>\<^verbatim>\<open>SmaractBaseController.send_cmd\<close>\<close>

abbreviation ERR_COUN :: string where
  "ERR_COUN \<equiv> '':SYST:ERR:COUN?''"

abbreviation ERR_NEXT :: string where
  "ERR_NEXT \<equiv> '':SYST:ERR:NEXT?''"

text \<open>
  Lines 120 and 121: the code is the integer of field 0 of the reply cut at commas, the
  message is field 1. \<^verbatim>\<open>int\<close> is evaluated first, so a bad code raises before a
  missing field does.
\<close>

definition error_record :: "string \<Rightarrow> py_error + (int \<times> string)" where
  "error_record resp =
     (case py_index (py_rsplit CHR '','' resp) 0 of
        Inl e \<Rightarrow> Inl e
      | Inr f0 \<Rightarrow>
          (case py_int f0 of
             Inl e \<Rightarrow> Inl e
           | Inr error_code \<Rightarrow>
               (case py_index (py_rsplit CHR '','' resp) 1 of
                  Inl e \<Rightarrow> Inl e
                | Inr error_msg \<Rightarrow> Inr (error_code, error_msg))))"

text \<open>\<^verbatim>\<open>'Error %d: %s' % (error_code, error_msg)\<close>\<close>

definition error_text :: "int \<Rightarrow> string \<Rightarrow> string" where
  "error_text error_code error_msg = ''Error '' @ str_int error_code @ '': '' @ error_msg"

text \<open>
  One pass through the body of \<^verbatim>\<open>while True\<close> (lines 115 to 125). The outcome is
  a raise (\<open>Inl\<close>), \<open>Inr True\<close> for \<^verbatim>\<open>break\<close>, or \<open>Inr False\<close> when the body runs to
  its end and the loop goes round again. \<^verbatim>\<open>print(resp)\<close> writes to standard output,
  which is not part of the state.
\<close>

definition send_cmd_body ::
  "'d responder \<Rightarrow> 'd communication \<Rightarrow> (py_error + bool) \<times> 'd communication" where
  "send_cmd_body R c =
     (case comm_send_cmd R c ERR_COUN of
        (cnt, c1) \<Rightarrow>
          (case py_int cnt of
             Inl e \<Rightarrow> (Inl e, c1)
           | Inr err \<Rightarrow>
               if err = 0 then (Inr True, c1)
               else
                 (case comm_send_cmd R c1 ERR_NEXT of
                    (resp, c2) \<Rightarrow>
                      (case error_record resp of
                         Inl e \<Rightarrow> (Inl e, c2)
                       | Inr (error_code, error_msg) \<Rightarrow>
                           if error_code \<noteq> 0
                           then (Inl (RuntimeError (error_text error_code error_msg)), c2)
                           else (Inr False, c2)))))"

text \<open>
  The loop itself. It has no bound: a far end that keeps reporting a nonzero count and
  records with code 0 keeps it running, and then the value is \<open>None\<close>.
\<close>

partial_function (option) send_cmd_while ::
  "'d responder \<Rightarrow> 'd communication \<Rightarrow> ((py_error + unit) \<times> 'd communication) option" where
  "send_cmd_while R c =
     (case send_cmd_body R c of
        (Inl e, c') \<Rightarrow> Some (Inl e, c')
      | (Inr stop, c') \<Rightarrow> if stop then Some (Inr (), c') else send_cmd_while R c')"

declare send_cmd_while.simps [code]

definition send_cmd ::
  "'d responder \<Rightarrow> 'd communication \<Rightarrow> string \<Rightarrow> ((py_error + string) \<times> 'd communication) option" where
  "send_cmd R c cmd =
     (case comm_send_cmd R c cmd of
        (ans, c1) \<Rightarrow>
          (case send_cmd_while R c1 of
             None \<Rightarrow> None
           | Some (Inl e, c2) \<Rightarrow> Some (Inl e, c2)
           | Some (Inr u, c2) \<Rightarrow> Some (Inr ans, c2)))"

text \<open>A scripted far end: it answers with the next line of a list, whatever the command,
  and with \<open>''0''\<close> once the list is used up.\<close>

fun scripted :: "string list responder" where
  "scripted [] cmd = (''0'', [])"
| "scripted (r # rs) cmd = (r, rs)"

text \<open>A far end that reports one queued error for ever and hands out records with
  code 0: the count never reaches 0 and no record makes the loop raise.\<close>

definition babbling :: "unit responder" where
  "babbling d cmd = (if cmd = ERR_COUN then ''1'' else ''0,info'', d)"

text \<open>
  What a far end answers to a list of commands sent one after the other, and the state
  it is left in. The theorems below describe a far end by the replies it gives.
\<close>

fun exchange :: "'d responder \<Rightarrow> 'd \<Rightarrow> string list \<Rightarrow> string list \<times> 'd" where
  "exchange R d [] = ([], d)"
| "exchange R d (q # qs) =
     (case R d q of
        (r, d1) \<Rightarrow> (case exchange R d1 qs of (rs, d2) \<Rightarrow> (r # rs, d2)))"

text \<open>\<open>polls n\<close>: the queries of \<open>n\<close> rounds of the loop that read a record;
  \<open>answers ps\<close>: the replies to them, each round a count reply and a record reply.\<close>

definition polls :: "nat \<Rightarrow> string list" where
  "polls n = concat (replicate n [ERR_COUN, ERR_NEXT])"

definition answers :: "(string \<times> string) list \<Rightarrow> string list" where
  "answers ps = concat (map (\<lambda>p. [fst p, snd p]) ps)"

text \<open>A round that does not end the loop: the count reply is a nonzero integer and the
  record reply is a record with code 0.\<close>

definition quiet_round :: "string \<times> string \<Rightarrow> bool" where
  "quiet_round p =
     (case py_int (fst p) of
        Inl e \<Rightarrow> False
      | Inr err \<Rightarrow>
          if err = 0 then False
          else (case error_record (snd p) of
                  Inl e \<Rightarrow> False
                | Inr rec \<Rightarrow> fst rec = 0))"

section \<open>\<^verbatim>\<open>SmaractBaseAxis\<close>\<close>

subsection \<open>\<^verbatim>\<open>str_cmd.format(axis_nr)\<close>\<close>

text \<open>
  \<^verbatim>\<open>str.format\<close> with one positional argument, an integer. The template is read
  left to right: \<^verbatim>\<open>{{\<close> and \<^verbatim>\<open>}}\<close> stand for one brace, a single
  \<^verbatim>\<open>}\<close> outside a field or a field that is never closed is a ValueError, and a
  replacement field is replaced by the argument. The fields covered are the
  automatically numbered \<^verbatim>\<open>{}\<close>, \<^verbatim>\<open>{:}\<close>, \<^verbatim>\<open>{:d}\<close> and the explicitly
  numbered \<^verbatim>\<open>{0}\<close>, \<^verbatim>\<open>{0:}\<close>, \<^verbatim>\<open>{0:d}\<close>, all of which give the decimal text
  of the integer. A second automatic field names argument 1, which does not exist
  (IndexError); mixing automatic and explicit numbering is a ValueError. Any other
  field (names, attributes, conversions, widths, other presentation types, nested
  fields) gives \<open>Unmodelled\<close>.
\<close>

datatype fmt_state = Text | Opened | Closed | Field string

datatype numbering = Unset | Automatic | Manual

definition render_field :: "numbering \<Rightarrow> string \<Rightarrow> int \<Rightarrow> py_error + (string \<times> numbering)" where
  "render_field nb f n =
     (if f \<in> set ['''', '':'', '':d''] then
        (case nb of
           Unset \<Rightarrow> Inr (str_int n, Automatic)
         | Automatic \<Rightarrow> Inl FormatIndexError
         | Manual \<Rightarrow> Inl FormatError)
      else if f \<in> set [''0'', ''0:'', ''0:d''] then
        (case nb of
           Unset \<Rightarrow> Inr (str_int n, Manual)
         | Automatic \<Rightarrow> Inl FormatError
         | Manual \<Rightarrow> Inr (str_int n, Manual))
      else Inl Unmodelled)"

fun format_go :: "fmt_state \<Rightarrow> numbering \<Rightarrow> int \<Rightarrow> string \<Rightarrow> py_error + string" where
  "format_go st nb n [] = (case st of Text \<Rightarrow> Inr [] | _ \<Rightarrow> Inl FormatError)"
| "format_go st nb n (c # cs) =
     (case st of
        Text \<Rightarrow>
          if c = CHR ''{'' then format_go Opened nb n cs
          else if c = CHR ''}'' then format_go Closed nb n cs
          else map_sum id ((#) c) (format_go Text nb n cs)
      | Opened \<Rightarrow>
          if c = CHR ''{'' then map_sum id ((#) c) (format_go Text nb n cs)
          else if c = CHR ''}'' then
            (case render_field nb [] n of
               Inl e \<Rightarrow> Inl e
             | Inr (txt, nb') \<Rightarrow> map_sum id ((@) txt) (format_go Text nb' n cs))
          else format_go (Field [c]) nb n cs
      | Closed \<Rightarrow>
          if c = CHR ''}'' then map_sum id ((#) c) (format_go Text nb n cs)
          else Inl FormatError
      | Field f \<Rightarrow>
          if c = CHR ''}'' then
            (case render_field nb f n of
               Inl e \<Rightarrow> Inl e
             | Inr (txt, nb') \<Rightarrow> map_sum id ((@) txt) (format_go Text nb' n cs))
          else if c = CHR ''{'' then Inl Unmodelled
          else format_go (Field (f @ [c])) nb n cs)"

definition py_format :: "string \<Rightarrow> int \<Rightarrow> py_error + string" where
  "py_format template n = format_go Text Unset n template"

subsection \<open>The axis and its command sender\<close>

text \<open>An axis holds its channel index and a reference to its controller; here the
  controller's communication object is passed to each operation instead.\<close>

record axis =
  axis_nr :: int

text \<open>\<^verbatim>\<open>_send_cmd(self, str_cmd, *pars)\<close>: \<open>pars\<close> are the extra positional
  parameters of the call.\<close>

definition axis_send_cmd ::
  "'d responder \<Rightarrow> 'd communication \<Rightarrow> axis \<Rightarrow> string \<Rightarrow> int list \<Rightarrow>
     ((py_error + string) \<times> 'd communication) option" where
  "axis_send_cmd R c ax str_cmd pars =
     (case py_format str_cmd (axis_nr ax) of
        Inl e \<Rightarrow> Some (Inl e, c)
      | Inr cmd \<Rightarrow> send_cmd R c cmd)"

subsection \<open>The \<^verbatim>\<open>safe_direction\<close> setter\<close>

definition lower_char :: "char \<Rightarrow> char" where
  "lower_char ch =
     (if 65 \<le> (of_char ch :: nat) \<and> (of_char ch :: nat) \<le> 90
      then char_of ((of_char ch :: nat) + 32) else ch)"

definition py_lower :: "string \<Rightarrow> string" where
  "py_lower s = map lower_char s"

text \<open>A call made for its effect: the setter returns \<^verbatim>\<open>None\<close>.\<close>

definition discard ::
  "((py_error + 'a) \<times> 's) option \<Rightarrow> ((py_error + unit) \<times> 's) option" where
  "discard r = map_option (\<lambda>p. (map_sum id (\<lambda>x. ()) (fst p), snd p)) r"

definition set_safe_direction ::
  "'d responder \<Rightarrow> 'd communication \<Rightarrow> axis \<Rightarrow> string \<Rightarrow>
     ((py_error + unit) \<times> 'd communication) option" where
  "set_safe_direction R c ax direction =
     (let direction = py_lower direction in
      case (if direction = ''forward'' then Inr 0
            else if direction = ''backward'' then Inr 1
            else Inl (ValueError ''Read the help'')) of
        Inl e \<Rightarrow> Some (Inl e, c)
      | Inr value \<Rightarrow> discard (axis_send_cmd R c ax ''SSD'' [value]))"

section \<open>\<^verbatim>\<open>SmaractMCSController._create_axes\<close>\<close>

text \<open>The controller is a list of axes (it subclasses \<^verbatim>\<open>list\<close>) with a
  communication object.\<close>

record 'd controller =
  comm :: "'d communication"
  axes :: "axis list"

text \<open>Lines 180 to 184: \<^verbatim>\<open>pop()\<close> until the list raises IndexError.\<close>

fun pop_all :: "'a list \<Rightarrow> 'a list" where
  "pop_all xs = (if xs = [] then xs else pop_all (butlast xs))"

declare pop_all.simps [simp del]

definition nchannels ::
  "'d responder \<Rightarrow> 'd communication \<Rightarrow> ((py_error + int) \<times> 'd communication) option" where
  "nchannels R c =
     (case send_cmd R c '':DEV:NOCH?'' of
        None \<Rightarrow> None
      | Some (Inl e, c1) \<Rightarrow> Some (Inl e, c1)
      | Some (Inr ans, c1) \<Rightarrow> Some (py_int ans, c1))"

definition py_range :: "int \<Rightarrow> int list" where
  "py_range n = map int [0..<nat n]"

text \<open>\<^verbatim>\<open>s.replace(ch, '')\<close> for a one-character \<open>ch\<close>.\<close>

definition py_remove :: "char \<Rightarrow> string \<Rightarrow> string" where
  "py_remove ch s = filter (\<lambda>x. x \<noteq> ch) s"

definition ptype_query :: "int \<Rightarrow> string" where
  "ptype_query n = '':CHAN'' @ str_int n @ '':PTYPE:NAME?''"

definition sensor_code_of :: "string \<Rightarrow> py_error + string" where
  "sensor_code_of ans =
     py_index (py_rsplit CHR ''.'' (py_remove (CHR 0x0D) (py_remove (CHR 0x22) ans))) 0"

definition no_axis_class :: "int \<Rightarrow> string \<Rightarrow> string" where
  "no_axis_class n sensor_code =
     ''Failed to create axis '' @ str_int n @ [CHR 0x0A]
       @ ''There is not axis class for sensor code '' @ sensor_code"

text \<open>The body of the \<^verbatim>\<open>for\<close> loop, run over the channel indices still to visit.\<close>

fun create_axes_for ::
  "'d responder \<Rightarrow> int list \<Rightarrow> 'd controller \<Rightarrow> ((py_error + unit) \<times> 'd controller) option" where
  "create_axes_for R [] ctrl = Some (Inr (), ctrl)"
| "create_axes_for R (n # rest) ctrl =
     (case send_cmd R (comm ctrl) (ptype_query n) of
        None \<Rightarrow> None
      | Some (Inl e, c1) \<Rightarrow> Some (Inl e, ctrl\<lparr>comm := c1\<rparr>)
      | Some (Inr ans, c1) \<Rightarrow>
          (case sensor_code_of ans of
             Inl e \<Rightarrow> Some (Inl e, ctrl\<lparr>comm := c1\<rparr>)
           | Inr sensor_code \<Rightarrow>
               if sensor_code \<in> set [''SL''] then
                 create_axes_for R rest
                   \<lparr>comm = c1, axes = axes ctrl @ [\<lparr>axis_nr = n\<rparr>]\<rparr>
               else if sensor_code \<in> set [''SR''] then
                 create_axes_for R rest
                   \<lparr>comm = c1, axes = axes ctrl @ [\<lparr>axis_nr = n\<rparr>]\<rparr>
               else if sensor_code \<in> set [''CUSTOM0'', ''CUSTOM1'', ''CUSTOM2'', ''CUSTOM3''] then
                 create_axes_for R rest
                   \<lparr>comm = c1, axes = axes ctrl @ [\<lparr>axis_nr = n\<rparr>]\<rparr>
               else Some (Inl (RuntimeError (no_axis_class n sensor_code)),
                          ctrl\<lparr>comm := c1\<rparr>)))"

definition create_axes ::
  "'d responder \<Rightarrow> 'd controller \<Rightarrow> ((py_error + unit) \<times> 'd controller) option" where
  "create_axes R ctrl =
     (let ctrl0 = ctrl\<lparr>axes := pop_all (axes ctrl)\<rparr> in
      case nchannels R (comm ctrl0) of
        None \<Rightarrow> None
      | Some (Inl e, c1) \<Rightarrow> Some (Inl e, ctrl0\<lparr>comm := c1\<rparr>)
      | Some (Inr n, c1) \<Rightarrow> create_axes_for R (py_range n) (ctrl0\<lparr>comm := c1\<rparr>))"

section \<open>Notions used in the statements\<close>

text \<open>The number of error records read in a piece of the trace: its round-trips whose
  command is the next-error query.\<close>

definition records_read :: "(string \<times> string) list \<Rightarrow> nat" where
  "records_read tr = length (filter (\<lambda>p. fst p = ERR_NEXT) tr)"

text \<open>A piece of a command template with no brace in it.\<close>

definition plain_text :: "string \<Rightarrow> bool" where
  "plain_text s = (CHR ''{'' \<notin> set s \<and> CHR ''}'' \<notin> set s)"

text \<open>
  Modelled from the spec: the repository has no function that reads an axis index back
  out of a command string; the specification speaks of "parsing it back". For a
  template \<open>pre @ ''{:d}'' @ suf\<close> the parser takes the text between the literal parts
  \<open>pre\<close> and \<open>suf\<close> of the command and reads it with \<^verbatim>\<open>int\<close>; a command that does
  not start with \<open>pre\<close> and end with \<open>suf\<close> is rejected.
\<close>

definition parse_axis_nr :: "string \<Rightarrow> string \<Rightarrow> string \<Rightarrow> py_error + int" where
  "parse_axis_nr pre suf cmd =
     (if length pre + length suf \<le> length cmd
         \<and> take (length pre) cmd = pre
         \<and> drop (length cmd - length suf) cmd = suf
      then py_int (take (length cmd - length pre - length suf) (drop (length pre) cmd))
      else Inl (InvalidLiteral cmd))"

text \<open>The sensor codes for which \<^verbatim>\<open>_create_axes\<close> makes an axis.\<close>

definition known_sensor :: "string \<Rightarrow> bool" where
  "known_sensor sc = (sc \<in> set [''SL'', ''SR'', ''CUSTOM0'', ''CUSTOM1'', ''CUSTOM2'', ''CUSTOM3''])"

text \<open>A reply to a channel's name query whose sensor code is one of the known ones.\<close>

definition known_reply :: "string \<Rightarrow> bool" where
  "known_reply s =
     (case sensor_code_of s of
        Inl e \<Rightarrow> False
      | Inr sc \<Rightarrow> known_sensor sc)"

text \<open>
  A list of commands sent one after the other through \<^verbatim>\<open>send_cmd\<close>, each of which
  returns: the result is the list of replies and the communication object after the
  last of them. It is \<open>None\<close> as soon as one call raises or does not come back.
\<close>

fun ask_all ::
  "'d responder \<Rightarrow> 'd communication \<Rightarrow> string list \<Rightarrow> (string list \<times> 'd communication) option" where
  "ask_all R c [] = Some ([], c)"
| "ask_all R c (q # qs) =
     (case send_cmd R c q of
        None \<Rightarrow> None
      | Some (Inl e, c1) \<Rightarrow> None
      | Some (Inr a, c1) \<Rightarrow>
          (case ask_all R c1 qs of
             None \<Rightarrow> None
           | Some (as, c2) \<Rightarrow> Some (a # as, c2)))"

section \<open>Decimal text and \<^verbatim>\<open>int\<close>\<close>

lemma digit_char_is_digit: "d < 10 \<Longrightarrow> is_digit (digit_char d)"
  by (simp add: is_digit_def digit_char_def)

lemma digit_val_digit_char: "d < 10 \<Longrightarrow> digit_val (digit_char d) = d"
  by (simp add: digit_val_def digit_char_def)

lemma str_nat_digits: "list_all is_digit (str_nat n)"
proof (induction n rule: str_nat.induct)
  case (1 n)
  show ?case
  proof (cases "n < 10")
    case True
    then show ?thesis by (subst str_nat.simps) (simp add: digit_char_is_digit)
  next
    case False
    with 1 show ?thesis
      by (subst str_nat.simps) (simp add: digit_char_is_digit)
  qed
qed

lemma str_nat_nonempty: "str_nat n \<noteq> []"
  by (subst str_nat.simps) simp

lemma digits_val_snoc: "digits_val (ds @ [c]) = 10 * digits_val ds + digit_val c"
  by (simp add: digits_val_def)

lemma digits_val_str_nat: "digits_val (str_nat n) = n"
proof (induction n rule: str_nat.induct)
  case (1 n)
  show ?case
  proof (cases "n < 10")
    case True
    then show ?thesis by (subst str_nat.simps) (simp add: digits_val_def digit_val_digit_char)
  next
    case False
    with 1 have "digits_val (str_nat (n div 10)) = n div 10" by simp
    with False show ?thesis
      by (subst str_nat.simps) (simp add: digits_val_snoc digit_val_digit_char)
  qed
qed

lemma digit_not_space: "is_digit c \<Longrightarrow> \<not> is_space c"
  by (auto simp: is_digit_def is_space_def)

lemma digit_not_sign: "is_digit c \<Longrightarrow> c \<noteq> CHR ''-'' \<and> c \<noteq> CHR ''+''"
  by (auto simp: is_digit_def)

lemma dropWhile_id: "s = [] \<or> \<not> P (hd s) \<Longrightarrow> dropWhile P s = s"
  by (cases s) auto

lemma py_strip_id:
  assumes "s \<noteq> []" "\<not> is_space (hd s)" "\<not> is_space (last s)"
  shows "py_strip s = s"
proof -
  have "dropWhile is_space s = s" using assms by (simp add: dropWhile_id)
  moreover have "dropWhile is_space (rev s) = rev s"
    using assms by (intro dropWhile_id) (simp add: hd_rev)
  ultimately show ?thesis by (simp add: py_strip_def)
qed

lemma py_digits_str_nat: "py_digits w (str_nat n) = Inr n"
  by (simp add: py_digits_def str_nat_nonempty str_nat_digits digits_val_str_nat)

lemma str_nat_hd: "is_digit (hd (str_nat n))"
  using str_nat_digits [of n] str_nat_nonempty [of n]
  by (cases "str_nat n") (simp_all)

lemma str_nat_last: "is_digit (last (str_nat n))"
  using str_nat_digits [of n] str_nat_nonempty [of n]
  by (metis last_in_set list_all_iff)

lemma py_int_str_int: "py_int (str_int i) = Inr i"
proof (cases "i < 0")
  case True
  let ?s = "CHR ''-'' # str_nat (nat (- i))"
  have "\<not> is_space (CHR ''-'')" by (simp add: is_space_def)
  moreover have "\<not> is_space (last ?s)"
    using str_nat_last [of "nat (- i)"] by (simp add: str_nat_nonempty digit_not_space)
  ultimately have "py_strip ?s = ?s" by (intro py_strip_id) simp_all
  with True show ?thesis
    by (simp add: py_int_def str_int_def py_digits_str_nat)
next
  case False
  let ?s = "str_nat (nat i)"
  have strip: "py_strip ?s = ?s"
    by (intro py_strip_id) (simp_all add: str_nat_nonempty str_nat_hd str_nat_last digit_not_space)
  obtain c r where cr: "?s = c # r" using str_nat_nonempty [of "nat i"] by (cases ?s) auto
  with str_nat_hd [of "nat i"] have "c \<noteq> CHR ''-''" "c \<noteq> CHR ''+''"
    using digit_not_sign by auto
  moreover have "py_digits ?s (c # r) = Inr (nat i)"
    using py_digits_str_nat [of ?s "nat i"] cr by simp
  ultimately show ?thesis using False strip cr
    by (simp add: py_int_def str_int_def)
qed

section \<open>The error-drain loop of \<^verbatim>\<open>send_cmd\<close>\<close>

lemma body_break:
  assumes "R (dev c) ERR_COUN = (cnt, d1)" "py_int cnt = Inr 0"
  shows "send_cmd_body R c = (Inr True, \<lparr>dev = d1, trace = trace c @ [(ERR_COUN, cnt)]\<rparr>)"
  using assms by (simp add: send_cmd_body_def comm_send_cmd_def)

lemma body_quiet:
  assumes "R (dev c) ERR_COUN = (k, d1)" "R d1 ERR_NEXT = (r, d2)" "quiet_round (k, r)"
  shows "send_cmd_body R c =
           (Inr False, \<lparr>dev = d2, trace = trace c @ [(ERR_COUN, k), (ERR_NEXT, r)]\<rparr>)"
  using assms
  by (auto simp: send_cmd_body_def comm_send_cmd_def quiet_round_def
           split: sum.splits if_splits)

lemma body_raise:
  assumes "R (dev c) ERR_COUN = (k, d1)" "py_int k = Inr err" "err \<noteq> 0"
    and "R d1 ERR_NEXT = (r, d2)" "error_record r = Inr (code, msg)" "code \<noteq> 0"
  shows "send_cmd_body R c =
           (Inl (RuntimeError (error_text code msg)),
            \<lparr>dev = d2, trace = trace c @ [(ERR_COUN, k), (ERR_NEXT, r)]\<rparr>)"
  using assms by (simp add: send_cmd_body_def comm_send_cmd_def)

lemma polls_Suc: "polls (Suc n) = ERR_COUN # ERR_NEXT # polls n"
  by (simp add: polls_def)

lemma polls_0: "polls 0 = []"
  by (simp add: polls_def)

lemma answers_Cons: "answers (p # ps) = fst p # snd p # answers ps"
  by (simp add: answers_def)

lemma answers_Nil: "answers [] = []"
  by (simp add: answers_def)

lemma while_quiet:
  assumes "exchange R (dev c) (polls (length ps)) = (answers ps, d')"
    and "list_all quiet_round ps"
  shows "send_cmd_while R c =
           send_cmd_while R
             \<lparr>dev = d', trace = trace c @ zip (polls (length ps)) (answers ps)\<rparr>"
  using assms
proof (induction ps arbitrary: c)
  case Nil
  then show ?case by (cases c) (simp add: polls_0 answers_Nil)
next
  case (Cons p ps)
  obtain k d1 where k: "R (dev c) ERR_COUN = (k, d1)" by (cases "R (dev c) ERR_COUN")
  obtain r d2 where r: "R d1 ERR_NEXT = (r, d2)" by (cases "R d1 ERR_NEXT")
  obtain rs d3 where rs: "exchange R d2 (polls (length ps)) = (rs, d3)"
    by (cases "exchange R d2 (polls (length ps))")
  from Cons.prems(1) k r rs
  have eqs: "k = fst p" "r = snd p" "rs = answers ps" "d3 = d'"
    by (simp_all add: polls_Suc answers_Cons)
  let ?c2 = "\<lparr>dev = d2, trace = trace c @ [(ERR_COUN, k), (ERR_NEXT, r)]\<rparr>"
  from Cons.prems(2) eqs have "quiet_round (k, r)" by simp
  with k r have body: "send_cmd_body R c = (Inr False, ?c2)" by (rule body_quiet)
  have step: "send_cmd_while R c = send_cmd_while R ?c2"
    by (subst send_cmd_while.simps) (simp add: body)
  have "send_cmd_while R ?c2 =
          send_cmd_while R
            \<lparr>dev = d', trace = trace ?c2 @ zip (polls (length ps)) (answers ps)\<rparr>"
    using Cons.prems(2) rs eqs by (intro Cons.IH) simp_all
  with step eqs show ?case by (simp add: polls_Suc answers_Cons)
qed

lemma send_cmd_unfold:
  assumes "R (dev c) cmd = (ans, d0)"
  shows "send_cmd R c cmd =
           (case send_cmd_while R \<lparr>dev = d0, trace = trace c @ [(cmd, ans)]\<rparr> of
              None \<Rightarrow> None
            | Some (Inl e, c2) \<Rightarrow> Some (Inl e, c2)
            | Some (Inr u, c2) \<Rightarrow> Some (Inr ans, c2))"
  using assms by (simp add: send_cmd_def comm_send_cmd_def)

lemma send_cmd_count_zero:
  assumes "R (dev c) cmd = (ans, d1)"
    and "R d1 ERR_COUN = (cnt, d2)"
    and "py_int cnt = Inr 0"
  shows "send_cmd R c cmd =
           Some (Inr ans, \<lparr>dev = d2, trace = trace c @ [(cmd, ans), (ERR_COUN, cnt)]\<rparr>)"
proof -
  let ?c1 = "\<lparr>dev = d1, trace = trace c @ [(cmd, ans)]\<rparr>"
  have "send_cmd_body R ?c1 = (Inr True, \<lparr>dev = d2, trace = trace ?c1 @ [(ERR_COUN, cnt)]\<rparr>)"
    using assms(2,3) by (intro body_break) simp_all
  then have "send_cmd_while R ?c1 = Some (Inr (), \<lparr>dev = d2, trace = trace ?c1 @ [(ERR_COUN, cnt)]\<rparr>)"
    by (subst send_cmd_while.simps) simp
  then show ?thesis by (simp add: send_cmd_unfold [of R c cmd ans d1] assms(1))
qed

text \<open>
  Claim C3. When the first error-count query after a command is answered with 0,
  \<^verbatim>\<open>send_cmd\<close> reads no error record, raises nothing and returns the reply of the
  command as it came: the call makes two round-trips, the command and the count query.
\<close>

theorem send_cmd_no_error:
  assumes "R (dev c) cmd = (ans, d1)"
    and "R d1 ERR_COUN = (cnt, d2)"
    and "py_int cnt = Inr 0"
  shows "send_cmd R c cmd =
           Some (Inr ans, \<lparr>dev = d2, trace = trace c @ [(cmd, ans), (ERR_COUN, cnt)]\<rparr>)"
  using assms by (rule send_cmd_count_zero)

theorem send_cmd_no_error_witness:
  "send_cmd scripted \<lparr>dev = [''F1,0'', ''0''], trace = []\<rparr> ''GSD'' =
     Some (Inr ''F1,0'', \<lparr>dev = [], trace = [(''GSD'', ''F1,0''), (ERR_COUN, ''0'')]\<rparr>)"
proof -
  have z: "py_int ''0'' = Inr 0" by code_simp
  show ?thesis
    using send_cmd_no_error [of scripted "\<lparr>dev = [''F1,0'', ''0''], trace = []\<rparr>" "''GSD''" "''F1,0''" "[''0'']" "''0''" "[]", OF _ _ z]
    by simp
qed

text \<open>
  The first record with a nonzero code decides the raise. After the command, let the
  loop read the records \<open>zs\<close>, all with code 0 and each behind a nonzero count, and then,
  behind another nonzero count, a record that the driver reads as code \<open>code \<noteq> 0\<close> and
  message \<open>msg\<close> (fields 0 and 1 of the reply cut at commas). Then \<^verbatim>\<open>send_cmd\<close>
  raises the RuntimeError made of that code and message, the reply \<open>ans\<close> of the command
  is not returned, and nothing is read after that record, whatever the far end still
  holds in \<open>d3\<close>.
\<close>

lemma send_cmd_first_nonzero:
  assumes "R (dev c) cmd = (ans, d0)"
    and "exchange R d0 (polls (length zs)) = (answers zs, d1)"
    and "list_all quiet_round zs"
    and "R d1 ERR_COUN = (k, d2)" "py_int k = Inr err" "err \<noteq> 0"
    and "R d2 ERR_NEXT = (r, d3)" "error_record r = Inr (code, msg)" "code \<noteq> 0"
  shows "send_cmd R c cmd =
           Some (Inl (RuntimeError (''Error '' @ str_int code @ '': '' @ msg)),
                 \<lparr>dev = d3,
                  trace = trace c @ (cmd, ans) # zip (polls (length zs)) (answers zs)
                            @ [(ERR_COUN, k), (ERR_NEXT, r)]\<rparr>)"
proof -
  let ?c1 = "\<lparr>dev = d0, trace = trace c @ [(cmd, ans)]\<rparr>"
  let ?c2 = "\<lparr>dev = d1, trace = trace ?c1 @ zip (polls (length zs)) (answers zs)\<rparr>"
  let ?c3 = "\<lparr>dev = d3, trace = trace ?c2 @ [(ERR_COUN, k), (ERR_NEXT, r)]\<rparr>"
  have "send_cmd_while R ?c1 = send_cmd_while R ?c2"
    using assms(2,3) by (intro while_quiet) simp_all
  moreover have "send_cmd_body R ?c2 = (Inl (RuntimeError (error_text code msg)), ?c3)"
    using assms(4-9) by (intro body_raise [where ?d1.0 = d2 and err = err]) simp_all
  then have "send_cmd_while R ?c2 = Some (Inl (RuntimeError (error_text code msg)), ?c3)"
    by (subst send_cmd_while.simps) simp
  ultimately show ?thesis
    by (simp add: send_cmd_unfold [of R c cmd ans d0] assms(1) error_text_def)
qed

text \<open>The call returns when, after any number of rounds with a record of code 0, a
  count query is answered with 0.\<close>

lemma send_cmd_returns:
  assumes "R (dev c) cmd = (ans, d0)"
    and "exchange R d0 (polls (length zs)) = (answers zs, d1)"
    and "list_all quiet_round zs"
    and "R d1 ERR_COUN = (z, d2)" "py_int z = Inr 0"
  shows "send_cmd R c cmd =
           Some (Inr ans,
                 \<lparr>dev = d2,
                  trace = trace c @ (cmd, ans) # zip (polls (length zs)) (answers zs)
                            @ [(ERR_COUN, z)]\<rparr>)"
proof -
  let ?c1 = "\<lparr>dev = d0, trace = trace c @ [(cmd, ans)]\<rparr>"
  let ?c2 = "\<lparr>dev = d1, trace = trace ?c1 @ zip (polls (length zs)) (answers zs)\<rparr>"
  have "send_cmd_while R ?c1 = send_cmd_while R ?c2"
    using assms(2,3) by (intro while_quiet) simp_all
  moreover have "send_cmd_body R ?c2 =
      (Inr True, \<lparr>dev = d2, trace = trace ?c2 @ [(ERR_COUN, z)]\<rparr>)"
    using assms(4,5) by (intro body_break) simp_all
  then have "send_cmd_while R ?c2 =
      Some (Inr (), \<lparr>dev = d2, trace = trace ?c2 @ [(ERR_COUN, z)]\<rparr>)"
    by (subst send_cmd_while.simps) simp
  ultimately show ?thesis
    by (simp add: send_cmd_unfold [of R c cmd ans d0] assms(1))
qed

lemma send_cmd_reply:
  assumes "send_cmd R c cmd = Some (Inr a, c')" "R (dev c) cmd = (s, d)"
  shows "a = s"
  using assms
  by (auto simp: send_cmd_unfold [of R c cmd s d] split: option.splits sum.splits prod.splits)

lemma body_True_D:
  assumes "send_cmd_body R c = (Inr True, c')"
  shows "\<exists>z. R (dev c) ERR_COUN = (z, dev c') \<and> py_int z = Inr 0
             \<and> trace c' = trace c @ [(ERR_COUN, z)]"
  using assms
  by (auto simp: send_cmd_body_def comm_send_cmd_def split: prod.splits sum.splits if_splits)

lemma body_False_D:
  assumes "send_cmd_body R c = (Inr False, c')"
  shows "\<exists>k d1 r. R (dev c) ERR_COUN = (k, d1) \<and> R d1 ERR_NEXT = (r, dev c')
             \<and> quiet_round (k, r)
             \<and> trace c' = trace c @ [(ERR_COUN, k), (ERR_NEXT, r)]"
proof -
  obtain k d1 where k: "R (dev c) ERR_COUN = (k, d1)" by (cases "R (dev c) ERR_COUN")
  obtain r d2 where r: "R d1 ERR_NEXT = (r, d2)" by (cases "R d1 ERR_NEXT")
  from assms k r obtain err m where
    f: "py_int k = Inr err" "err \<noteq> 0" "error_record r = Inr (0, m)"
       "c' = \<lparr>dev = d2, trace = trace c @ [(ERR_COUN, k), (ERR_NEXT, r)]\<rparr>"
    by (auto simp: send_cmd_body_def comm_send_cmd_def split: sum.splits if_splits)
  then have "quiet_round (k, r)" by (simp add: quiet_round_def)
  with k r f show ?thesis by auto
qed

lemma while_returns_D:
  assumes "send_cmd_while R c = Some y"
  shows "\<forall>c'. y = (Inr (), c') \<longrightarrow>
           (\<exists>zs d1 z. exchange R (dev c) (polls (length zs)) = (answers zs, d1)
              \<and> list_all quiet_round zs
              \<and> R d1 ERR_COUN = (z, dev c') \<and> py_int z = Inr 0
              \<and> trace c' = trace c @ zip (polls (length zs)) (answers zs) @ [(ERR_COUN, z)])"
proof -
  let ?P = "\<lambda>R c y. \<forall>c'. y = (Inr (), c') \<longrightarrow>
           (\<exists>zs d1 z. exchange R (dev c) (polls (length zs)) = (answers zs, d1)
              \<and> list_all quiet_round zs
              \<and> R d1 ERR_COUN = (z, dev c') \<and> py_int z = Inr 0
              \<and> trace c' = trace c @ zip (polls (length zs)) (answers zs) @ [(ERR_COUN, z)])"
  show ?thesis
  proof (rule send_cmd_while.raw_induct [where P = ?P, OF _ assms])
    fix W :: "'a responder \<Rightarrow> 'a communication \<Rightarrow> ((py_error + unit) \<times> 'a communication) option"
    fix R c y
    assume IH: "\<And>R c y. W R c = Some y \<Longrightarrow> ?P R c y"
      and step: "(case send_cmd_body R c of
                    (Inl e, c') \<Rightarrow> Some (Inl e, c')
                  | (Inr stop, c') \<Rightarrow> if stop then Some (Inr (), c') else W R c') = Some y"
    show "?P R c y"
    proof (intro allI impI)
      fix c' assume y: "y = (Inr (), c')"
      obtain out c1 where body: "send_cmd_body R c = (out, c1)" by (cases "send_cmd_body R c")
      show "\<exists>zs d1 z. exchange R (dev c) (polls (length zs)) = (answers zs, d1)
              \<and> list_all quiet_round zs
              \<and> R d1 ERR_COUN = (z, dev c') \<and> py_int z = Inr 0
              \<and> trace c' = trace c @ zip (polls (length zs)) (answers zs) @ [(ERR_COUN, z)]"
      proof (cases out)
        case (Inl e)
        with step body y show ?thesis by simp
      next
        case (Inr stop)
        show ?thesis
        proof (cases stop)
          case True
          with step body y Inr have "send_cmd_body R c = (Inr True, c')" by simp
          from body_True_D [OF this] obtain z where
            z: "R (dev c) ERR_COUN = (z, dev c')" "py_int z = Inr 0"
               "trace c' = trace c @ [(ERR_COUN, z)]" by blast
          then show ?thesis
            by (intro exI [of _ "[]"] exI [of _ "dev c"] exI [of _ z])
               (simp add: polls_0 answers_Nil)
        next
          case False
          with step body y Inr have W: "W R c1 = Some (Inr (), c')" by simp
          from False body Inr have "send_cmd_body R c = (Inr False, c1)" by simp
          from body_False_D [OF this] obtain k d1 r where
            kr: "R (dev c) ERR_COUN = (k, d1)" "R d1 ERR_NEXT = (r, dev c1)"
                "quiet_round (k, r)"
                "trace c1 = trace c @ [(ERR_COUN, k), (ERR_NEXT, r)]" by blast
          from IH [OF W] obtain zs d2 z where
            zs: "exchange R (dev c1) (polls (length zs)) = (answers zs, d2)"
                "list_all quiet_round zs"
                "R d2 ERR_COUN = (z, dev c')" "py_int z = Inr 0"
                "trace c' = trace c1 @ zip (polls (length zs)) (answers zs) @ [(ERR_COUN, z)]"
            by blast
          from kr zs show ?thesis
            by (intro exI [of _ "(k, r) # zs"] exI [of _ d2] exI [of _ z])
               (simp add: polls_Suc answers_Cons)
        qed
      qed
    qed
  qed
qed

text \<open>
  Claim C2, as amended. \<^verbatim>\<open>send_cmd\<close> returns, that is the loop ends by its
  \<^verbatim>\<open>break\<close>, exactly when a count query is answered with 0 after any number of
  rounds, each of which had a nonzero count and read a record with code 0. The count is
  queried again after every such record, so the loop ends neither after a fixed number
  of reads nor because a record with code 0 was read. (A record with a nonzero code ends
  the loop by a raise with no further count query: claim C1.)
\<close>

theorem send_cmd_returns_iff:
  "send_cmd R c cmd = Some (Inr a, c') \<longleftrightarrow>
     (\<exists>d0 zs d1 z.
        R (dev c) cmd = (a, d0)
      \<and> exchange R d0 (polls (length zs)) = (answers zs, d1)
      \<and> list_all quiet_round zs
      \<and> R d1 ERR_COUN = (z, dev c') \<and> py_int z = Inr 0
      \<and> trace c' = trace c @ (cmd, a) # zip (polls (length zs)) (answers zs)
                      @ [(ERR_COUN, z)])"
  (is "?lhs \<longleftrightarrow> ?rhs")
proof
  assume ?lhs
  obtain ans d0 where cmd: "R (dev c) cmd = (ans, d0)" by (cases "R (dev c) cmd")
  let ?c1 = "\<lparr>dev = d0, trace = trace c @ [(cmd, ans)]\<rparr>"
  from \<open>?lhs\<close> have "send_cmd_while R ?c1 = Some (Inr (), c') \<and> a = ans"
    by (auto simp: send_cmd_unfold [of R c cmd ans d0] cmd
             split: option.splits sum.splits prod.splits)
  then have w: "send_cmd_while R ?c1 = Some (Inr (), c')" and a: "a = ans" by simp_all
  from while_returns_D [OF w] obtain zs d1 z where
    "exchange R (dev ?c1) (polls (length zs)) = (answers zs, d1)"
    "list_all quiet_round zs"
    "R d1 ERR_COUN = (z, dev c')" "py_int z = Inr 0"
    "trace c' = trace ?c1 @ zip (polls (length zs)) (answers zs) @ [(ERR_COUN, z)]"
    by blast
  with cmd a show ?rhs
    by (intro exI [of _ d0] exI [of _ zs] exI [of _ d1] exI [of _ z]) simp
next
  assume ?rhs
  then obtain d0 zs d1 z where h:
    "R (dev c) cmd = (a, d0)"
    "exchange R d0 (polls (length zs)) = (answers zs, d1)"
    "list_all quiet_round zs"
    "R d1 ERR_COUN = (z, dev c')" "py_int z = Inr 0"
    "trace c' = trace c @ (cmd, a) # zip (polls (length zs)) (answers zs) @ [(ERR_COUN, z)]"
    by blast
  let ?c1 = "\<lparr>dev = d0, trace = trace c @ [(cmd, a)]\<rparr>"
  let ?c2 = "\<lparr>dev = d1, trace = trace ?c1 @ zip (polls (length zs)) (answers zs)\<rparr>"
  have "send_cmd_while R ?c1 = send_cmd_while R ?c2"
    using h(2,3) by (intro while_quiet) simp_all
  moreover have "send_cmd_body R ?c2 =
      (Inr True, \<lparr>dev = dev c', trace = trace ?c2 @ [(ERR_COUN, z)]\<rparr>)"
    using h(4,5) by (intro body_break) simp_all
  then have "send_cmd_while R ?c2 =
      Some (Inr (), \<lparr>dev = dev c', trace = trace ?c2 @ [(ERR_COUN, z)]\<rparr>)"
    by (subst send_cmd_while.simps) simp
  moreover have "\<lparr>dev = dev c', trace = trace ?c2 @ [(ERR_COUN, z)]\<rparr> = c'"
    using h(6) by (cases c') simp
  ultimately show ?lhs
    by (simp add: send_cmd_unfold [of R c cmd a d0] h(1))
qed

theorem send_cmd_returns_iff_witness:
  "send_cmd scripted
     \<lparr>dev = [''ok'', ''2'', ''0,info'', ''1'', ''0,more'', ''0''], trace = []\<rparr> ''GS'' =
   Some (Inr ''ok'',
         \<lparr>dev = [],
          trace = [(''GS'', ''ok''), (ERR_COUN, ''2''), (ERR_NEXT, ''0,info''),
                   (ERR_COUN, ''1''), (ERR_NEXT, ''0,more''), (ERR_COUN, ''0'')]\<rparr>)"
proof (rule iffD2 [OF send_cmd_returns_iff])
  show "\<exists>d0 zs d1 z.
          scripted (dev \<lparr>dev = [''ok'', ''2'', ''0,info'', ''1'', ''0,more'', ''0''], trace = []\<rparr>) ''GS'' = (''ok'', d0)
        \<and> exchange scripted d0 (polls (length zs)) = (answers zs, d1)
        \<and> list_all quiet_round zs
        \<and> scripted d1 ERR_COUN
             = (z, dev \<lparr>dev = [],
                         trace = [(''GS'', ''ok''), (ERR_COUN, ''2''), (ERR_NEXT, ''0,info''),
                                  (ERR_COUN, ''1''), (ERR_NEXT, ''0,more''), (ERR_COUN, ''0'')]\<rparr>)
        \<and> py_int z = Inr 0
        \<and> trace \<lparr>dev = [],
                  trace = [(''GS'', ''ok''), (ERR_COUN, ''2''), (ERR_NEXT, ''0,info''),
                           (ERR_COUN, ''1''), (ERR_NEXT, ''0,more''), (ERR_COUN, ''0'')]\<rparr>
            = trace \<lparr>dev = [''ok'', ''2'', ''0,info'', ''1'', ''0,more'', ''0''], trace = []\<rparr>
                @ (''GS'', ''ok'') # zip (polls (length zs)) (answers zs) @ [(ERR_COUN, z)]"
    apply (rule exI [of _ "[''2'', ''0,info'', ''1'', ''0,more'', ''0'']"])
    apply (rule exI [of _ "[(''2'', ''0,info''), (''1'', ''0,more'')]"])
    apply (rule exI [of _ "[''0'']"])
    apply (rule exI [of _ "''0''"])
    apply code_simp
    done
qed

text \<open>
  Claim C2 as it is stated fails: with one record of code 5 queued, the loop ends after
  a single count query, answered with 1 and never with 0, and the count is not queried
  again after the record was read (the reply \<open>''0''\<close> that a further query would get is
  still with the far end).
\<close>

theorem drain_ends_on_nonzero_record:
  "send_cmd scripted \<lparr>dev = [''ok'', ''1'', ''5,boom'', ''0''], trace = []\<rparr> ''GS'' =
     Some (Inl (RuntimeError ''Error 5: boom''),
           \<lparr>dev = [''0''],
            trace = [(''GS'', ''ok''), (ERR_COUN, ''1''), (ERR_NEXT, ''5,boom'')]\<rparr>)"
  by code_simp

subsection \<open>A call that never comes back\<close>

text \<open>The loop has no bound of its own: against the far end \<open>babbling\<close> the call
  does not return and does not raise.\<close>

lemma babbling_body:
  "send_cmd_body babbling c =
     (Inr False, \<lparr>dev = (), trace = trace c @ [(ERR_COUN, ''1''), (ERR_NEXT, ''0,info'')]\<rparr>)"
proof -
  have "babbling (dev c) ERR_COUN = (''1'', ())" "babbling () ERR_NEXT = (''0,info'', ())"
    by (simp_all add: babbling_def)
  moreover have "quiet_round (''1'', ''0,info'')" by code_simp
  ultimately show ?thesis by (rule body_quiet)
qed

lemma babbling_never_returns: "send_cmd_while babbling c = None"
proof (rule ccontr)
  assume "send_cmd_while babbling c \<noteq> None"
  then obtain y where y: "send_cmd_while babbling c = Some y" by auto
  have "babbling \<noteq> babbling"
  proof (rule send_cmd_while.raw_induct [where P = "\<lambda>R c y. R \<noteq> babbling", OF _ y])
    fix W :: "unit responder \<Rightarrow> unit communication \<Rightarrow> ((py_error + unit) \<times> unit communication) option"
    fix R c y
    assume IH: "\<And>R c y. W R c = Some y \<Longrightarrow> R \<noteq> babbling"
      and step: "(case send_cmd_body R c of
                    (Inl e, c') \<Rightarrow> Some (Inl e, c')
                  | (Inr stop, c') \<Rightarrow> if stop then Some (Inr (), c') else W R c') = Some y"
    show "R \<noteq> babbling"
    proof
      assume R: "R = babbling"
      with step have "W babbling
          \<lparr>dev = (), trace = trace c @ [(ERR_COUN, ''1''), (ERR_NEXT, ''0,info'')]\<rparr> = Some y"
        by (simp add: babbling_body)
      from IH [OF this] show False by simp
    qed
  qed
  then show False by simp
qed

lemma send_cmd_hangs: "send_cmd babbling c cmd = None"
  by (simp add: send_cmd_def comm_send_cmd_def babbling_never_returns split: prod.splits)

section \<open>Round-trips of \<^verbatim>\<open>send_cmd\<close>\<close>

lemma py_int_error: "py_int s = Inl e \<Longrightarrow> e = InvalidLiteral s"
  by (auto simp: py_int_def py_digits_def split: list.splits if_splits)

lemma error_record_error:
  "error_record r = Inl e \<Longrightarrow> e = IndexError \<or> (\<exists>s. e = InvalidLiteral s)"
  by (auto simp: error_record_def py_index_def split: sum.splits if_splits dest: py_int_error)

lemma records_read_simps:
  "records_read [] = 0"
  "records_read ((ERR_COUN, k) # tr) = records_read tr"
  "records_read ((ERR_NEXT, r) # tr) = Suc (records_read tr)"
  by (simp_all add: records_read_def)

lemma body_trace:
  assumes "send_cmd_body R c = (out, c1)"
  shows "(\<exists>k. trace c1 = trace c @ [(ERR_COUN, k)] \<and> out \<noteq> Inr False
             \<and> (\<forall>m. out \<noteq> Inl (RuntimeError m)) \<and> (\<forall>m. out \<noteq> Inl (ValueError m)))
       \<or> (\<exists>k r. trace c1 = trace c @ [(ERR_COUN, k), (ERR_NEXT, r)] \<and> out \<noteq> Inr True
             \<and> (\<forall>m. out \<noteq> Inl (ValueError m)))"
proof -
  obtain k d1 where k: "R (dev c) ERR_COUN = (k, d1)" by (cases "R (dev c) ERR_COUN")
  obtain r d2 where r: "R d1 ERR_NEXT = (r, d2)" by (cases "R d1 ERR_NEXT")
  show ?thesis
  proof (cases "py_int k")
    case (Inl e)
    with assms k py_int_error [OF Inl] show ?thesis
      by (auto simp: send_cmd_body_def comm_send_cmd_def)
  next
    case (Inr err)
    show ?thesis
    proof (cases "err = 0")
      case True
      with assms k Inr show ?thesis
        by (auto simp: send_cmd_body_def comm_send_cmd_def)
    next
      case False
      show ?thesis
      proof (cases "error_record r")
        case (Inl e)
        with assms k r Inr False error_record_error [OF Inl] show ?thesis
          by (auto simp: send_cmd_body_def comm_send_cmd_def)
      next
        case rec: (Inr p)
        with assms k r Inr False show ?thesis
          by (cases p) (auto simp: send_cmd_body_def comm_send_cmd_def split: if_splits)
      qed
    qed
  qed
qed

lemma while_trips:
  assumes "send_cmd_while R c = Some y"
  shows "\<exists>new. trace (snd y) = trace c @ new \<and> new \<noteq> []
           \<and> 2 * records_read new \<le> length new
           \<and> length new \<le> 2 * records_read new + 1
           \<and> (fst y = Inr () \<longrightarrow> length new = 2 * records_read new + 1)
           \<and> (\<forall>m. fst y = Inl (RuntimeError m) \<longrightarrow> length new = 2 * records_read new)
           \<and> (\<forall>m. fst y \<noteq> Inl (ValueError m))"
proof -
  let ?Q = "\<lambda>y new. new \<noteq> []
           \<and> 2 * records_read new \<le> length new
           \<and> length new \<le> 2 * records_read new + 1
           \<and> (fst y = Inr () \<longrightarrow> length new = 2 * records_read new + 1)
           \<and> (\<forall>m. fst y = Inl (RuntimeError m) \<longrightarrow> length new = 2 * records_read new)
           \<and> (\<forall>m. fst y \<noteq> Inl (ValueError m))"
  let ?P = "\<lambda>(R :: 'a responder) c y. \<exists>new. trace (snd y) = trace c @ new \<and> ?Q y new"
  show ?thesis
  proof (rule send_cmd_while.raw_induct [where P = ?P, OF _ assms])
    fix W :: "'a responder \<Rightarrow> 'a communication \<Rightarrow> ((py_error + unit) \<times> 'a communication) option"
    fix R c y
    assume IH: "\<And>R c y. W R c = Some y \<Longrightarrow> ?P R c y"
      and step: "(case send_cmd_body R c of
                    (Inl e, c') \<Rightarrow> Some (Inl e, c')
                  | (Inr stop, c') \<Rightarrow> if stop then Some (Inr (), c') else W R c') = Some y"
    obtain out c1 where body: "send_cmd_body R c = (out, c1)" by (cases "send_cmd_body R c")
    note bt = body_trace [OF body]
    show "?P R c y"
    proof (cases out)
      case (Inl e)
      with step body have y: "y = (Inl e, c1)" by auto
      from bt Inl y show ?thesis
        by (auto simp: records_read_simps)
    next
      case (Inr stop)
      show ?thesis
      proof (cases stop)
        case True
        with step body Inr have y: "y = (Inr (), c1)" by auto
        from bt Inr True y show ?thesis
          by (auto simp: records_read_simps)
      next
        case False
        with step body Inr have W: "W R c1 = Some y" by simp
        from bt Inr False obtain k r where
          t1: "trace c1 = trace c @ [(ERR_COUN, k), (ERR_NEXT, r)]" by auto
        from IH [OF W] obtain new where
          n: "trace (snd y) = trace c1 @ new" "?Q y new" by blast
        let ?new = "(ERR_COUN, k) # (ERR_NEXT, r) # new"
        have "trace (snd y) = trace c @ ?new" using t1 n(1) by simp
        moreover have "?Q y ?new" using n(2) by (simp add: records_read_simps)
        ultimately show ?thesis by blast
      qed
    qed
  qed
qed

text \<open>
  Claim C9, as amended. A call of \<^verbatim>\<open>send_cmd\<close> that comes back, by a return or a
  raise, after reading \<open>N\<close> error records has made at least 2 and at most \<open>2N + 2\<close>
  round-trips: the command, a count query before every record read, the \<open>N\<close> reads,
  and one more count query when it returns. It is exactly \<open>2N + 2\<close> when the call
  returns and \<open>2N + 1\<close> when it raises the RuntimeError of a record. Here \<open>drain\<close> is
  the part of the trace after the command and \<open>N = records_read drain\<close>.
\<close>

theorem send_cmd_round_trips:
  assumes "send_cmd R c cmd = Some (res, c')"
  shows "\<exists>ans drain.
           trace c' = trace c @ (cmd, ans) # drain
         \<and> 2 \<le> 1 + length drain
         \<and> 1 + length drain \<le> 2 * records_read drain + 2
         \<and> (\<forall>a. res = Inr a \<longrightarrow> 1 + length drain = 2 * records_read drain + 2)
         \<and> (\<forall>m. res = Inl (RuntimeError m) \<longrightarrow> 1 + length drain = 2 * records_read drain + 1)"
proof -
  obtain ans d0 where cmd: "R (dev c) cmd = (ans, d0)" by (cases "R (dev c) cmd")
  let ?c1 = "\<lparr>dev = d0, trace = trace c @ [(cmd, ans)]\<rparr>"
  from assms obtain y where w: "send_cmd_while R ?c1 = Some y"
    and c': "snd y = c'"
    and res: "\<And>a. res = Inr a \<Longrightarrow> fst y = Inr ()" "\<And>m. res = Inl m \<Longrightarrow> fst y = Inl m"
    by (auto simp: send_cmd_unfold [of R c cmd ans d0] cmd split: option.splits sum.splits prod.splits)
  from while_trips [OF w] obtain new where
    n: "trace (snd y) = trace ?c1 @ new" "new \<noteq> []"
       "2 * records_read new \<le> length new" "length new \<le> 2 * records_read new + 1"
       "fst y = Inr () \<longrightarrow> length new = 2 * records_read new + 1"
       "\<forall>m. fst y = Inl (RuntimeError m) \<longrightarrow> length new = 2 * records_read new"
    by blast
  from n(2) have "1 \<le> length new" by (cases new) simp_all
  with n c' res show ?thesis
    by (intro exI [of _ ans] exI [of _ new]) auto
qed

theorem send_cmd_round_trips_witness:
  "\<exists>ans drain.
     [(''GS'', ''ok''), (ERR_COUN, ''1''), (ERR_NEXT, ''0,info''), (ERR_COUN, ''1''),
      (ERR_NEXT, ''5,boom'')] = [] @ (''GS'', ans) # drain
   \<and> 2 \<le> 1 + length drain
   \<and> 1 + length drain \<le> 2 * records_read drain + 2
   \<and> 1 + length drain = 2 * records_read drain + 1"
proof -
  let ?c = "\<lparr>dev = [''ok'', ''1'', ''0,info'', ''1'', ''5,boom''], trace = []\<rparr>"
  let ?c' = "\<lparr>dev = [] :: string list,
              trace = [(''GS'', ''ok''), (ERR_COUN, ''1''), (ERR_NEXT, ''0,info''),
                       (ERR_COUN, ''1''), (ERR_NEXT, ''5,boom'')]\<rparr>"
  have run: "send_cmd scripted ?c ''GS'' = Some (Inl (RuntimeError ''Error 5: boom''), ?c')"
    by code_simp
  from send_cmd_round_trips [OF run] show ?thesis by simp
qed

text \<open>
  Claim C9 as it is stated fails: with one record of code 0 queued the call reads
  \<open>N = 1\<close> record and makes 4 round-trips, more than \<open>N + 2 = 3\<close>.
\<close>

theorem round_trips_exceed_records_plus_two:
  "send_cmd scripted \<lparr>dev = [''ok'', ''1'', ''0,info'', ''0''], trace = []\<rparr> ''GS'' =
     Some (Inr ''ok'',
           \<lparr>dev = [],
            trace = [(''GS'', ''ok''), (ERR_COUN, ''1''), (ERR_NEXT, ''0,info''),
                     (ERR_COUN, ''0'')]\<rparr>)
   \<and> records_read [(ERR_COUN, ''1''), (ERR_NEXT, ''0,info''), (ERR_COUN, ''0'')] = 1
   \<and> length [(''GS'', ''ok''), (ERR_COUN, ''1''), (ERR_NEXT, ''0,info''), (ERR_COUN, ''0'')] = 4
   \<and> \<not> (4::nat) \<le> 1 + 2"
  by code_simp

section \<open>The text of a raised error\<close>

text \<open>A record sent as \<open><code>,<message>\<close> with no comma in the message is read as it
  was sent.\<close>

lemma py_rsplit_no_sep: "sep \<notin> set s \<Longrightarrow> py_rsplit sep s = [s]"
  by (induction s) auto

lemma py_rsplit_first_sep:
  "sep \<notin> set a \<Longrightarrow> py_rsplit sep (a @ sep # b) = a # py_rsplit sep b"
  by (induction a) auto

lemma str_int_no_comma: "CHR '','' \<notin> set (str_int i)"
proof -
  have "CHR '','' \<notin> set (str_nat n)" for n
    using str_nat_digits [of n] by (auto simp: list_all_iff is_digit_def)
  then show ?thesis by (simp add: str_int_def)
qed

lemma error_record_wire:
  assumes "CHR '','' \<notin> set msg"
  shows "error_record (str_int code @ CHR '','' # msg) = Inr (code, msg)"
  using assms
  by (simp add: error_record_def py_rsplit_first_sep [OF str_int_no_comma] py_rsplit_no_sep
                py_index_def py_int_str_int)

text \<open>
  Claim C6. The text of the raised error holds the code, but the message only up to its
  first comma: the reply is cut at every comma and field 1 alone is taken. For the
  record \<open>147,Range limit reached, axis 2\<close> the error says \<open>Error 147: Range limit reached\<close>;
  the rest of the controller's message is lost.
\<close>

theorem error_message_cut_at_comma:
  "send_cmd scripted
     \<lparr>dev = ['''', ''1'', ''147,Range limit reached, axis 2''], trace = []\<rparr> '':MOVE2 1500'' =
   Some (Inl (RuntimeError ''Error 147: Range limit reached''),
         \<lparr>dev = [],
          trace = [('':MOVE2 1500'', ''''), (ERR_COUN, ''1''),
                   (ERR_NEXT, ''147,Range limit reached, axis 2'')]\<rparr>)"
  by code_simp

text \<open>A record sent as \<open><code>,<message>\<close> with a nonzero code and no comma in the message is
  raised with exactly its code and message.\<close>

lemma send_cmd_first_nonzero_wire:
  assumes "R (dev c) cmd = (ans, d0)"
    and "exchange R d0 (polls (length zs)) = (answers zs, d1)"
    and "list_all quiet_round zs"
    and "R d1 ERR_COUN = (k, d2)" "py_int k = Inr err" "err \<noteq> 0"
    and "R d2 ERR_NEXT = (str_int code @ CHR '','' # msg, d3)"
    and "code \<noteq> 0" "CHR '','' \<notin> set msg"
  shows "send_cmd R c cmd =
           Some (Inl (RuntimeError (''Error '' @ str_int code @ '': '' @ msg)),
                 \<lparr>dev = d3,
                  trace = trace c @ (cmd, ans) # zip (polls (length zs)) (answers zs)
                            @ [(ERR_COUN, k), (ERR_NEXT, str_int code @ CHR '','' # msg)]\<rparr>)"
  using assms(1-7) error_record_wire [OF assms(9), of code] assms(8)
  by (rule send_cmd_first_nonzero)

text \<open>
  Claim C1. The first record with a nonzero code is the one raised, behind a record with
  code 0 that is read through and whatever records follow, and no reply is returned;
  but the error carries the message of that record only up to its first comma. For
  the records \<open>0,info\<close> and \<open>147,Range limit reached, axis 2\<close> (one more still queued)
  the call raises \<open>Error 147: Range limit reached\<close>.
\<close>

theorem first_nonzero_message_cut_at_comma:
  "send_cmd scripted
     \<lparr>dev = [''ok'', ''2'', ''0,info'', ''1'', ''147,Range limit reached, axis 2'',
             ''1'', ''1,Syntax Error''], trace = []\<rparr> ''GSD'' =
   Some (Inl (RuntimeError ''Error 147: Range limit reached''),
         \<lparr>dev = [''1'', ''1,Syntax Error''],
          trace = [(''GSD'', ''ok''), (ERR_COUN, ''2''), (ERR_NEXT, ''0,info''),
                   (ERR_COUN, ''1''), (ERR_NEXT, ''147,Range limit reached, axis 2'')]\<rparr>)"
  by code_simp

section \<open>The \<^verbatim>\<open>safe_direction\<close> setter\<close>

lemma py_format_SSD: "py_format ''SSD'' n = Inr ''SSD''"
  by (simp add: py_format_def)

lemma send_cmd_no_ValueError:
  assumes "send_cmd R c cmd = Some (res, c')"
  shows "res \<noteq> Inl (ValueError m)"
proof -
  obtain ans d0 where cmd: "R (dev c) cmd = (ans, d0)" by (cases "R (dev c) cmd")
  let ?c1 = "\<lparr>dev = d0, trace = trace c @ [(cmd, ans)]\<rparr>"
  from assms obtain y where w: "send_cmd_while R ?c1 = Some y"
    and res: "\<And>m. res = Inl m \<Longrightarrow> fst y = Inl m"
    by (auto simp: send_cmd_unfold [of R c cmd ans d0] cmd split: option.splits sum.splits prod.splits)
  from while_trips [OF w] have "\<forall>m. fst y \<noteq> Inl (ValueError m)" by blast
  with res show ?thesis by auto
qed

lemma send_cmd_trace_starts:
  assumes "send_cmd R c cmd = Some (res, c')"
  shows "\<exists>ans rest. trace c' = trace c @ (cmd, ans) # rest"
proof -
  obtain ans d0 where cmd: "R (dev c) cmd = (ans, d0)" by (cases "R (dev c) cmd")
  let ?c1 = "\<lparr>dev = d0, trace = trace c @ [(cmd, ans)]\<rparr>"
  from assms obtain y where w: "send_cmd_while R ?c1 = Some y" and c': "snd y = c'"
    by (auto simp: send_cmd_unfold [of R c cmd ans d0] cmd split: option.splits sum.splits prod.splits)
  from while_trips [OF w] obtain new where "trace (snd y) = trace ?c1 @ new" by blast
  with c' show ?thesis by auto
qed

lemma set_safe_direction_accepted:
  assumes "py_lower direction = ''forward'' \<or> py_lower direction = ''backward''"
  shows "set_safe_direction R c ax direction = discard (send_cmd R c ''SSD'')"
  using assms by (auto simp: set_safe_direction_def axis_send_cmd_def py_format_SSD Let_def)

lemma set_safe_direction_rejected:
  assumes "py_lower direction \<noteq> ''forward''" "py_lower direction \<noteq> ''backward''"
  shows "set_safe_direction R c ax direction = Some (Inl (ValueError ''Read the help''), c)"
  using assms by (simp add: set_safe_direction_def Let_def)

lemma discard_Some_D:
  assumes "discard r = Some (res, c')"
  shows "\<exists>res0. r = Some (res0, c') \<and> res = map_sum id (\<lambda>x. ()) res0"
  using assms by (cases r) (auto simp: discard_def)

text \<open>
  Claim C7. For a direction that is neither \<open>forward\<close> nor \<open>backward\<close> once put in lower
  case, the setter raises \<^verbatim>\<open>ValueError('Read the help')\<close> and the communication
  object is left as it was: nothing is written to the transport. For the two recognised
  directions the setter is the sending of \<open>SSD\<close> through \<^verbatim>\<open>send_cmd\<close>:
  \<^item> when the drain that follows the command ends with a count of 0, after any number of
    records with code 0, the setter returns and the first new round-trip is \<open>SSD\<close>;
  \<^item> when the drain meets a record with a nonzero code, the setter raises the
    RuntimeError of that record, after \<open>SSD\<close> was sent;
  \<^item> whenever it comes back at all, its first new round-trip is \<open>SSD\<close> and what it
    raises is not the setter's own ValueError.
\<close>

theorem safe_direction_validates:
  "(py_lower direction \<noteq> ''forward'' \<and> py_lower direction \<noteq> ''backward'' \<longrightarrow>
      set_safe_direction R c ax direction = Some (Inl (ValueError ''Read the help''), c))
   \<and> (py_lower direction = ''forward'' \<or> py_lower direction = ''backward'' \<longrightarrow>
        set_safe_direction R c ax direction = discard (send_cmd R c ''SSD'')
      \<and> (\<forall>ans d0 zs d1 z d2.
            R (dev c) ''SSD'' = (ans, d0)
          \<and> exchange R d0 (polls (length zs)) = (answers zs, d1)
          \<and> list_all quiet_round zs
          \<and> R d1 ERR_COUN = (z, d2) \<and> py_int z = Inr 0 \<longrightarrow>
            set_safe_direction R c ax direction =
              Some (Inr (),
                    \<lparr>dev = d2,
                     trace = trace c @ (''SSD'', ans) # zip (polls (length zs)) (answers zs)
                               @ [(ERR_COUN, z)]\<rparr>))
      \<and> (\<forall>ans d0 zs d1 k err d2 r code msg d3.
            R (dev c) ''SSD'' = (ans, d0)
          \<and> exchange R d0 (polls (length zs)) = (answers zs, d1)
          \<and> list_all quiet_round zs
          \<and> R d1 ERR_COUN = (k, d2) \<and> py_int k = Inr err \<and> err \<noteq> 0
          \<and> R d2 ERR_NEXT = (r, d3) \<and> error_record r = Inr (code, msg) \<and> code \<noteq> 0 \<longrightarrow>
            set_safe_direction R c ax direction =
              Some (Inl (RuntimeError (''Error '' @ str_int code @ '': '' @ msg)),
                    \<lparr>dev = d3,
                     trace = trace c @ (''SSD'', ans) # zip (polls (length zs)) (answers zs)
                               @ [(ERR_COUN, k), (ERR_NEXT, r)]\<rparr>))
      \<and> (\<forall>res c'. set_safe_direction R c ax direction = Some (res, c') \<longrightarrow>
            (\<exists>ans rest. trace c' = trace c @ (''SSD'', ans) # rest)
          \<and> res \<noteq> Inl (ValueError ''Read the help'')))"
proof (intro conjI impI allI)
  assume "py_lower direction \<noteq> ''forward'' \<and> py_lower direction \<noteq> ''backward''"
  then show "set_safe_direction R c ax direction = Some (Inl (ValueError ''Read the help''), c)"
    by (simp add: set_safe_direction_rejected)
next
  assume a: "py_lower direction = ''forward'' \<or> py_lower direction = ''backward''"
  then show "set_safe_direction R c ax direction = discard (send_cmd R c ''SSD'')"
    by (rule set_safe_direction_accepted)
next
  fix ans d0 zs d1 z d2
  assume a: "py_lower direction = ''forward'' \<or> py_lower direction = ''backward''"
    and h: "R (dev c) ''SSD'' = (ans, d0)
          \<and> exchange R d0 (polls (length zs)) = (answers zs, d1)
          \<and> list_all quiet_round zs
          \<and> R d1 ERR_COUN = (z, d2) \<and> py_int z = Inr 0"
  from h have "send_cmd R c ''SSD'' =
      Some (Inr ans,
            \<lparr>dev = d2,
             trace = trace c @ (''SSD'', ans) # zip (polls (length zs)) (answers zs)
                       @ [(ERR_COUN, z)]\<rparr>)"
    by (intro send_cmd_returns [where R = R and c = c and ?d0.0 = d0 and ?d1.0 = d1]) simp_all
  with set_safe_direction_accepted [OF a, of R c ax]
  show "set_safe_direction R c ax direction =
              Some (Inr (),
                    \<lparr>dev = d2,
                     trace = trace c @ (''SSD'', ans) # zip (polls (length zs)) (answers zs)
                               @ [(ERR_COUN, z)]\<rparr>)"
    by (simp add: discard_def)
next
  fix ans d0 zs d1 k err d2 r code msg d3
  assume a: "py_lower direction = ''forward'' \<or> py_lower direction = ''backward''"
    and h: "R (dev c) ''SSD'' = (ans, d0)
          \<and> exchange R d0 (polls (length zs)) = (answers zs, d1)
          \<and> list_all quiet_round zs
          \<and> R d1 ERR_COUN = (k, d2) \<and> py_int k = Inr err \<and> err \<noteq> 0
          \<and> R d2 ERR_NEXT = (r, d3) \<and> error_record r = Inr (code, msg) \<and> code \<noteq> 0"
  from h have "send_cmd R c ''SSD'' =
      Some (Inl (RuntimeError (''Error '' @ str_int code @ '': '' @ msg)),
            \<lparr>dev = d3,
             trace = trace c @ (''SSD'', ans) # zip (polls (length zs)) (answers zs)
                       @ [(ERR_COUN, k), (ERR_NEXT, r)]\<rparr>)"
    by (intro send_cmd_first_nonzero
                [where R = R and c = c and ?d0.0 = d0 and ?d1.0 = d1 and err = err and ?d2.0 = d2])
       simp_all
  with set_safe_direction_accepted [OF a, of R c ax]
  show "set_safe_direction R c ax direction =
              Some (Inl (RuntimeError (''Error '' @ str_int code @ '': '' @ msg)),
                    \<lparr>dev = d3,
                     trace = trace c @ (''SSD'', ans) # zip (polls (length zs)) (answers zs)
                               @ [(ERR_COUN, k), (ERR_NEXT, r)]\<rparr>)"
    by (simp add: discard_def)
next
  fix res c'
  assume a: "py_lower direction = ''forward'' \<or> py_lower direction = ''backward''"
    and r: "set_safe_direction R c ax direction = Some (res, c')"
  from r set_safe_direction_accepted [OF a, of R c ax]
  have "discard (send_cmd R c ''SSD'') = Some (res, c')" by simp
  from discard_Some_D [OF this] obtain res0 where
    s: "send_cmd R c ''SSD'' = Some (res0, c')" and res: "res = map_sum id (\<lambda>x. ()) res0"
    by blast
  from send_cmd_trace_starts [OF s]
  show "\<exists>ans rest. trace c' = trace c @ (''SSD'', ans) # rest" .
  from send_cmd_no_ValueError [OF s, of "''Read the help''"] res
  show "res \<noteq> Inl (ValueError ''Read the help'')" by (cases res0) auto
qed

theorem safe_direction_validates_witness:
  "set_safe_direction scripted \<lparr>dev = [''ok'', ''0''], trace = []\<rparr> \<lparr>axis_nr = 2\<rparr> ''sideways''
     = Some (Inl (ValueError ''Read the help''), \<lparr>dev = [''ok'', ''0''], trace = []\<rparr>)
   \<and> set_safe_direction scripted \<lparr>dev = [''ok'', ''1'', ''0,info'', ''0''], trace = []\<rparr>
        \<lparr>axis_nr = 2\<rparr> ''Forward''
     = Some (Inr (),
             \<lparr>dev = [],
              trace = [(''SSD'', ''ok''), (ERR_COUN, ''1''), (ERR_NEXT, ''0,info''),
                       (ERR_COUN, ''0'')]\<rparr>)
   \<and> set_safe_direction scripted \<lparr>dev = [''ok'', ''1'', ''7,Invalid Parameter Error''], trace = []\<rparr>
        \<lparr>axis_nr = 2\<rparr> ''BACKWARD''
     = Some (Inl (RuntimeError ''Error 7: Invalid Parameter Error''),
             \<lparr>dev = [],
              trace = [(''SSD'', ''ok''), (ERR_COUN, ''1''),
                       (ERR_NEXT, ''7,Invalid Parameter Error'')]\<rparr>)"
proof (intro conjI)
  let ?c = "\<lparr>dev = [''ok'', ''0''], trace = []\<rparr>"
  have a: "py_lower ''sideways'' \<noteq> ''forward'' \<and> py_lower ''sideways'' \<noteq> ''backward''"
    by code_simp
  from safe_direction_validates [of "''sideways''" scripted ?c "\<lparr>axis_nr = 2\<rparr>"] a
  show "set_safe_direction scripted ?c \<lparr>axis_nr = 2\<rparr> ''sideways''
          = Some (Inl (ValueError ''Read the help''), ?c)"
    by blast
next
  let ?c = "\<lparr>dev = [''ok'', ''1'', ''0,info'', ''0''], trace = []\<rparr>"
  let ?zs = "[(''1'', ''0,info'')]"
  have b: "py_lower ''Forward'' = ''forward'' \<or> py_lower ''Forward'' = ''backward''"
    by code_simp
  have h: "scripted (dev ?c) ''SSD'' = (''ok'', [''1'', ''0,info'', ''0''])
          \<and> exchange scripted [''1'', ''0,info'', ''0''] (polls (length ?zs)) = (answers ?zs, [''0''])
          \<and> list_all quiet_round ?zs
          \<and> scripted [''0''] ERR_COUN = (''0'', []) \<and> py_int ''0'' = Inr 0"
    by code_simp
  from safe_direction_validates [of "''Forward''" scripted ?c "\<lparr>axis_nr = 2\<rparr>"] b
  have "\<forall>ans d0 zs d1 z d2.
            scripted (dev ?c) ''SSD'' = (ans, d0)
          \<and> exchange scripted d0 (polls (length zs)) = (answers zs, d1)
          \<and> list_all quiet_round zs
          \<and> scripted d1 ERR_COUN = (z, d2) \<and> py_int z = Inr 0 \<longrightarrow>
            set_safe_direction scripted ?c \<lparr>axis_nr = 2\<rparr> ''Forward'' =
              Some (Inr (),
                    \<lparr>dev = d2,
                     trace = trace ?c @ (''SSD'', ans) # zip (polls (length zs)) (answers zs)
                               @ [(ERR_COUN, z)]\<rparr>)"
    by blast
  from this [rule_format, OF h]
  have "set_safe_direction scripted ?c \<lparr>axis_nr = 2\<rparr> ''Forward'' =
          Some (Inr (),
                \<lparr>dev = [],
                 trace = trace ?c @ (''SSD'', ''ok'') # zip (polls (length ?zs)) (answers ?zs)
                           @ [(ERR_COUN, ''0'')]\<rparr>)" .
  also have "\<dots> = Some (Inr (),
             \<lparr>dev = [],
              trace = [(''SSD'', ''ok''), (ERR_COUN, ''1''), (ERR_NEXT, ''0,info''),
                       (ERR_COUN, ''0'')]\<rparr>)"
    by code_simp
  finally show "set_safe_direction scripted ?c \<lparr>axis_nr = 2\<rparr> ''Forward''
     = Some (Inr (),
             \<lparr>dev = [],
              trace = [(''SSD'', ''ok''), (ERR_COUN, ''1''), (ERR_NEXT, ''0,info''),
                       (ERR_COUN, ''0'')]\<rparr>)" .
next
  let ?c = "\<lparr>dev = [''ok'', ''1'', ''7,Invalid Parameter Error''], trace = []\<rparr>"
  let ?zs = "[] :: (string \<times> string) list"
  have b: "py_lower ''BACKWARD'' = ''forward'' \<or> py_lower ''BACKWARD'' = ''backward''"
    by code_simp
  have h: "scripted (dev ?c) ''SSD'' = (''ok'', [''1'', ''7,Invalid Parameter Error''])
          \<and> exchange scripted [''1'', ''7,Invalid Parameter Error''] (polls (length ?zs))
              = (answers ?zs, [''1'', ''7,Invalid Parameter Error''])
          \<and> list_all quiet_round ?zs
          \<and> scripted [''1'', ''7,Invalid Parameter Error''] ERR_COUN
              = (''1'', [''7,Invalid Parameter Error''])
          \<and> py_int ''1'' = Inr 1 \<and> (1::int) \<noteq> 0
          \<and> scripted [''7,Invalid Parameter Error''] ERR_NEXT = (''7,Invalid Parameter Error'', [])
          \<and> error_record ''7,Invalid Parameter Error'' = Inr (7, ''Invalid Parameter Error'')
          \<and> (7::int) \<noteq> 0"
    by code_simp
  from safe_direction_validates [of "''BACKWARD''" scripted ?c "\<lparr>axis_nr = 2\<rparr>"] b
  have "\<forall>ans d0 zs d1 k err d2 r code msg d3.
            scripted (dev ?c) ''SSD'' = (ans, d0)
          \<and> exchange scripted d0 (polls (length zs)) = (answers zs, d1)
          \<and> list_all quiet_round zs
          \<and> scripted d1 ERR_COUN = (k, d2) \<and> py_int k = Inr err \<and> err \<noteq> 0
          \<and> scripted d2 ERR_NEXT = (r, d3) \<and> error_record r = Inr (code, msg) \<and> code \<noteq> 0 \<longrightarrow>
            set_safe_direction scripted ?c \<lparr>axis_nr = 2\<rparr> ''BACKWARD'' =
              Some (Inl (RuntimeError (''Error '' @ str_int code @ '': '' @ msg)),
                    \<lparr>dev = d3,
                     trace = trace ?c @ (''SSD'', ans) # zip (polls (length zs)) (answers zs)
                               @ [(ERR_COUN, k), (ERR_NEXT, r)]\<rparr>)"
    by blast
  from this [rule_format, OF h]
  have "set_safe_direction scripted ?c \<lparr>axis_nr = 2\<rparr> ''BACKWARD'' =
          Some (Inl (RuntimeError (''Error '' @ str_int 7 @ '': '' @ ''Invalid Parameter Error'')),
                \<lparr>dev = [],
                 trace = trace ?c @ (''SSD'', ''ok'') # zip (polls (length ?zs)) (answers ?zs)
                           @ [(ERR_COUN, ''1''), (ERR_NEXT, ''7,Invalid Parameter Error'')]\<rparr>)" .
  also have "\<dots> = Some (Inl (RuntimeError ''Error 7: Invalid Parameter Error''),
             \<lparr>dev = [],
              trace = [(''SSD'', ''ok''), (ERR_COUN, ''1''),
                       (ERR_NEXT, ''7,Invalid Parameter Error'')]\<rparr>)"
    by code_simp
  finally show "set_safe_direction scripted ?c \<lparr>axis_nr = 2\<rparr> ''BACKWARD''
     = Some (Inl (RuntimeError ''Error 7: Invalid Parameter Error''),
             \<lparr>dev = [],
              trace = [(''SSD'', ''ok''), (ERR_COUN, ''1''),
                       (ERR_NEXT, ''7,Invalid Parameter Error'')]\<rparr>)" .
qed

text \<open>
  Claim C10. The command sender of the axis ignores its extra positional parameters,
  the template \<open>SSD\<close> has no placeholder and is sent as it is, and so for every accepted
  direction the setter sends the bare \<open>SSD\<close>: setting \<open>forward\<close> and setting \<open>backward\<close>
  are the same exchange with the controller, the value 0 or 1 is never transmitted.
\<close>

theorem safe_direction_value_not_sent:
  "axis_send_cmd R c ax str_cmd pars = axis_send_cmd R c ax str_cmd []
   \<and> py_format ''SSD'' (axis_nr ax) = Inr ''SSD''
   \<and> set_safe_direction R c ax ''forward'' = set_safe_direction R c ax ''backward''
   \<and> (py_lower direction = ''forward'' \<or> py_lower direction = ''backward'' \<longrightarrow>
        set_safe_direction R c ax direction = discard (axis_send_cmd R c ax ''SSD'' [])
      \<and> axis_send_cmd R c ax ''SSD'' [] = send_cmd R c ''SSD'')"
proof -
  have f: "py_lower ''forward'' = ''forward''" by code_simp
  have b: "py_lower ''backward'' = ''backward''" by code_simp
  have "set_safe_direction R c ax ''forward'' = discard (send_cmd R c ''SSD'')"
    by (rule set_safe_direction_accepted) (simp add: f)
  moreover have "set_safe_direction R c ax ''backward'' = discard (send_cmd R c ''SSD'')"
    by (rule set_safe_direction_accepted) (simp add: b)
  moreover have "axis_send_cmd R c ax ''SSD'' [] = send_cmd R c ''SSD''"
    by (simp add: axis_send_cmd_def py_format_SSD)
  ultimately show ?thesis
    by (auto simp: axis_send_cmd_def py_format_SSD set_safe_direction_accepted)
qed

theorem safe_direction_value_not_sent_witness:
  "set_safe_direction scripted \<lparr>dev = [''ok'', ''0''], trace = []\<rparr> \<lparr>axis_nr = 3\<rparr> ''BACKWARD''
     = Some (Inr (), \<lparr>dev = [], trace = [(''SSD'', ''ok''), (ERR_COUN, ''0'')]\<rparr>)"
proof -
  have b: "py_lower ''BACKWARD'' = ''forward'' \<or> py_lower ''BACKWARD'' = ''backward''"
    by code_simp
  have run: "discard (send_cmd scripted \<lparr>dev = [''ok'', ''0''], trace = []\<rparr> ''SSD'')
          = Some (Inr (), \<lparr>dev = [], trace = [(''SSD'', ''ok''), (ERR_COUN, ''0'')]\<rparr>)"
    by code_simp
  from safe_direction_value_not_sent
         [of scripted "\<lparr>dev = [''ok'', ''0''], trace = []\<rparr>" "\<lparr>axis_nr = 3\<rparr>" "''SSD''" "[1]" "''BACKWARD''"] b run
  show ?thesis by simp
qed

section \<open>Formatting the axis index into a command\<close>

lemma format_go_plain:
  assumes "plain_text s"
  shows "format_go Text nb n (s @ t) = map_sum id ((@) s) (format_go Text nb n t)"
  using assms
proof (induction s)
  case Nil
  show ?case by (cases "format_go Text nb n t") simp_all
next
  case (Cons c s)
  then have "c \<noteq> CHR ''{''" "c \<noteq> CHR ''}''" "plain_text s"
    by (auto simp: plain_text_def)
  with Cons.IH show ?case
    by (cases "format_go Text nb n t") simp_all
qed

lemma format_go_field_d:
  "format_go Text Unset n (''{:d}'' @ t) = map_sum id ((@) (str_int n)) (format_go Text Automatic n t)"
  by (simp add: render_field_def)

lemma format_go_plain_end:
  assumes "plain_text s"
  shows "format_go Text nb n s = Inr s"
  using format_go_plain [OF assms, of nb n "[]"] by simp

lemma py_format_axis:
  assumes "plain_text pre" "plain_text suf"
  shows "py_format (pre @ ''{:d}'' @ suf) n = Inr (pre @ str_int n @ suf)"
  unfolding py_format_def
  by (simp only: format_go_plain [OF assms(1)] format_go_field_d format_go_plain_end [OF assms(2)])
     simp

lemma parse_axis_nr_inverse:
  "parse_axis_nr pre suf (pre @ str_int n @ suf) = Inr n"
  by (simp add: parse_axis_nr_def py_int_str_int)

text \<open>
  Claim C8. For an axis index \<open>n\<close> from 0 to 63 and a template made of brace-free text
  around the placeholder \<^verbatim>\<open>{:d}\<close>, formatting gives the template with the decimal
  text of \<open>n\<close> in place of the placeholder, and parsing that command gives \<open>n\<close> back.
  (The helper lemmas show the same for every integer.)
\<close>

theorem axis_index_round_trip:
  assumes "plain_text pre" "plain_text suf" "0 \<le> n" "n \<le> 63"
  shows "\<exists>cmd. py_format (pre @ ''{:d}'' @ suf) n = Inr cmd
             \<and> cmd = pre @ str_int n @ suf
             \<and> parse_axis_nr pre suf cmd = Inr n"
  using py_format_axis [OF assms(1,2), of n] parse_axis_nr_inverse [of pre suf n] by simp

theorem axis_index_round_trip_witness:
  "py_format '':CHAN{:d}:PTYPE:NAME?'' 63 = Inr '':CHAN63:PTYPE:NAME?''
   \<and> parse_axis_nr '':CHAN'' '':PTYPE:NAME?'' '':CHAN63:PTYPE:NAME?'' = Inr 63"
proof -
  have p: "plain_text '':CHAN''" "plain_text '':PTYPE:NAME?''" by code_simp+
  have s: "'':CHAN'' @ str_int 63 @ '':PTYPE:NAME?'' = '':CHAN63:PTYPE:NAME?''" by code_simp
  from axis_index_round_trip [OF p, of 63] s show ?thesis by simp
qed

section \<open>Enumeration of the axes\<close>

lemma pop_all_empty: "pop_all xs = []"
proof (induction xs rule: pop_all.induct)
  case (1 xs)
  then show ?case by (subst pop_all.simps) simp
qed

lemma ask_all_Cons_D:
  assumes "ask_all R c (q # qs) = Some (names, c2)"
  shows "\<exists>a c1 as. send_cmd R c q = Some (Inr a, c1) \<and> ask_all R c1 qs = Some (as, c2)
            \<and> names = a # as"
  using assms by (auto split: option.splits sum.splits prod.splits)

lemma create_axes_for_known_reply:
  assumes "send_cmd R (comm ctrl) (ptype_query n) = Some (Inr a, c1)" "known_reply a"
  shows "create_axes_for R (n # rest) ctrl =
           create_axes_for R rest \<lparr>comm = c1, axes = axes ctrl @ [\<lparr>axis_nr = n\<rparr>]\<rparr>"
proof -
  from assms(2) obtain sc where "sensor_code_of a = Inr sc" "known_sensor sc"
    by (auto simp: known_reply_def split: sum.splits)
  with assms(1) show ?thesis by (auto simp: known_sensor_def)
qed

lemma create_axes_for_asked:
  assumes "ask_all R (comm ctrl) (map ptype_query ns) = Some (names, c1)"
    and "list_all known_reply names"
  shows "create_axes_for R (ns @ rest) ctrl =
           create_axes_for R rest
             \<lparr>comm = c1, axes = axes ctrl @ map (\<lambda>n. \<lparr>axis_nr = n\<rparr>) ns\<rparr>"
  using assms
proof (induction ns arbitrary: ctrl names)
  case Nil
  then show ?case by (cases ctrl) simp
next
  case (Cons n ns)
  from Cons.prems(1) have "ask_all R (comm ctrl) (ptype_query n # map ptype_query ns) = Some (names, c1)"
    by simp
  from ask_all_Cons_D [OF this] obtain a c' as where
    a: "send_cmd R (comm ctrl) (ptype_query n) = Some (Inr a, c')"
    and as: "ask_all R c' (map ptype_query ns) = Some (as, c1)"
    and names: "names = a # as" by blast
  from Cons.prems(2) names have ka: "known_reply a" and kas: "list_all known_reply as" by simp_all
  let ?ctrl1 = "\<lparr>comm = c', axes = axes ctrl @ [\<lparr>axis_nr = n\<rparr>]\<rparr>"
  have "create_axes_for R ((n # ns) @ rest) ctrl = create_axes_for R (ns @ rest) ?ctrl1"
    using create_axes_for_known_reply [OF a ka, of "ns @ rest"] by simp
  also have "\<dots> = create_axes_for R rest
        \<lparr>comm = c1, axes = axes ?ctrl1 @ map (\<lambda>n. \<lparr>axis_nr = n\<rparr>) ns\<rparr>"
    using as kas by (intro Cons.IH) simp_all
  finally show ?case by simp
qed

lemma nchannels_returns:
  assumes "send_cmd R c '':DEV:NOCH?'' = Some (Inr cnt, c0)"
  shows "nchannels R c = Some (py_int cnt, c0)"
  using assms by (simp add: nchannels_def)

lemma py_range_int: "py_range (int k) = map int [0..<k]"
  by (simp add: py_range_def)

lemma py_range_split:
  assumes "int k < n"
  shows "py_range n = py_range (int k) @ int k # map int [Suc k..<nat n]"
proof -
  from assms have lt: "k < nat n" by linarith
  then have "[0..<nat n] = [0..<k] @ [k..<nat n]"
    using upt_add_eq_append [of 0 k "nat n - k"] by simp
  moreover from lt have "[k..<nat n] = k # [Suc k..<nat n]" by (rule upt_conv_Cons)
  ultimately show ?thesis by (simp add: py_range_def)
qed

text \<open>
  Claim C5, as amended. When the controller reports \<open>C\<close> channels, every command of the
  run returns without a raise (the count query and the \<open>C\<close> name queries, whose
  drains may read records with code 0) and every channel answers with a known sensor
  code, the enumeration succeeds and the controller holds exactly \<open>C\<close> axes with the
  channel indices 0, 1, ..., \<open>C - 1\<close> in this order, whatever axes it held before.
\<close>

theorem create_axes_in_index_order:
  assumes "send_cmd R (comm ctrl) '':DEV:NOCH?'' = Some (Inr cnt, c0)"
    and "py_int cnt = Inr (int C)"
    and "ask_all R c0 (map ptype_query (py_range (int C))) = Some (names, c1)"
    and "list_all known_reply names"
  shows "create_axes R ctrl =
           Some (Inr (), \<lparr>comm = c1, axes = map (\<lambda>i. \<lparr>axis_nr = int i\<rparr>) [0..<C]\<rparr>)"
proof -
  let ?ctrl0 = "\<lparr>comm = c0, axes = []\<rparr>"
  have n: "nchannels R (comm ctrl) = Some (Inr (int C), c0)"
    using nchannels_returns [OF assms(1)] assms(2) by simp
  have "create_axes_for R (py_range (int C) @ []) ?ctrl0 =
          create_axes_for R []
            \<lparr>comm = c1, axes = axes ?ctrl0 @ map (\<lambda>n. \<lparr>axis_nr = n\<rparr>) (py_range (int C))\<rparr>"
    using assms(3,4) by (intro create_axes_for_asked) simp_all
  with n show ?thesis
    by (cases ctrl) (simp add: create_axes_def pop_all_empty py_range_int comp_def)
qed

theorem create_axes_in_index_order_witness:
  "create_axes scripted
     \<lparr>comm = \<lparr>dev = [''2'', ''0'', ''SL'', ''1'', ''0,info'', ''0'', ''CUSTOM2'', ''0''],
              trace = []\<rparr>,
      axes = [\<lparr>axis_nr = 7\<rparr>]\<rparr> =
   Some (Inr (),
         \<lparr>comm = \<lparr>dev = [],
                  trace = [('':DEV:NOCH?'', ''2''), (ERR_COUN, ''0''),
                           ('':CHAN0:PTYPE:NAME?'', ''SL''), (ERR_COUN, ''1''),
                           (ERR_NEXT, ''0,info''), (ERR_COUN, ''0''),
                           ('':CHAN1:PTYPE:NAME?'', ''CUSTOM2''), (ERR_COUN, ''0'')]\<rparr>,
          axes = [\<lparr>axis_nr = 0\<rparr>, \<lparr>axis_nr = 1\<rparr>]\<rparr>)"
proof -
  let ?d0 = "[''SL'', ''1'', ''0,info'', ''0'', ''CUSTOM2'', ''0'']"
  let ?ctrl = "\<lparr>comm = \<lparr>dev = ''2'' # ''0'' # ?d0, trace = []\<rparr>, axes = [\<lparr>axis_nr = 7\<rparr>]\<rparr>"
  let ?c0 = "\<lparr>dev = ?d0, trace = [('':DEV:NOCH?'', ''2''), (ERR_COUN, ''0'')]\<rparr>"
  let ?c1 = "\<lparr>dev = [] :: string list,
             trace = [('':DEV:NOCH?'', ''2''), (ERR_COUN, ''0''),
                      ('':CHAN0:PTYPE:NAME?'', ''SL''), (ERR_COUN, ''1''),
                      (ERR_NEXT, ''0,info''), (ERR_COUN, ''0''),
                      ('':CHAN1:PTYPE:NAME?'', ''CUSTOM2''), (ERR_COUN, ''0'')]\<rparr>"
  have h1: "send_cmd scripted (comm ?ctrl) '':DEV:NOCH?'' = Some (Inr ''2'', ?c0)" by code_simp
  have h2: "py_int ''2'' = Inr (int 2)" by code_simp
  have h3: "ask_all scripted ?c0 (map ptype_query (py_range (int 2))) = Some ([''SL'', ''CUSTOM2''], ?c1)"
    by code_simp
  have h4: "list_all known_reply [''SL'', ''CUSTOM2'']" by code_simp
  have "create_axes scripted ?ctrl =
          Some (Inr (), \<lparr>comm = ?c1, axes = map (\<lambda>i. \<lparr>axis_nr = int i\<rparr>) [0..<2]\<rparr>)"
    by (rule create_axes_in_index_order [OF h1 h2 h3 h4])
  also have "\<dots> = Some (Inr (), \<lparr>comm = ?c1, axes = [\<lparr>axis_nr = 0\<rparr>, \<lparr>axis_nr = 1\<rparr>]\<rparr>)"
    by code_simp
  finally show ?thesis .
qed

text \<open>
  Claim C5 as it is stated fails: with two channels that answer \<open>SL\<close> and \<open>SR\<close>, both
  known, and error 129 queued behind the second answer, the enumeration fails with the
  controller's error and leaves one axis.
\<close>

theorem create_axes_fails_on_queued_error:
  "create_axes scripted
     \<lparr>comm = \<lparr>dev = [''2'', ''0'', ''SL'', ''0'', ''SR'', ''1'', ''129,No Sensor Present Error''],
              trace = []\<rparr>,
      axes = []\<rparr> =
   Some (Inl (RuntimeError ''Error 129: No Sensor Present Error''),
         \<lparr>comm = \<lparr>dev = [],
                  trace = [('':DEV:NOCH?'', ''2''), (ERR_COUN, ''0''),
                           ('':CHAN0:PTYPE:NAME?'', ''SL''), (ERR_COUN, ''0''),
                           ('':CHAN1:PTYPE:NAME?'', ''SR''), (ERR_COUN, ''1''),
                           (ERR_NEXT, ''129,No Sensor Present Error'')]\<rparr>,
          axes = [\<lparr>axis_nr = 0\<rparr>]\<rparr>)"
  by code_simp

text \<open>
  Claim C4, as amended. Let the run reach channel \<open>k\<close>, within the reported count: the
  count query and the name queries of the channels before \<open>k\<close> return without a raise
  and with known sensor codes. Let channel \<open>k\<close> answer with a code outside the known
  set, and let the call that asks it come back. Then the enumeration fails, with the
  RuntimeError naming that channel and code when the call returns and with the error of
  the call when it raises, and afterwards the controller holds the axes of the channels
  before \<open>k\<close>, indices 0 to \<open>k - 1\<close> in order: no axis when \<open>k = 0\<close>, a partial list
  otherwise. The axes held before the run are gone in either case.
\<close>

theorem create_axes_unknown_keeps_earlier_axes:
  assumes "send_cmd R (comm ctrl) '':DEV:NOCH?'' = Some (Inr cnt, c0)"
    and "py_int cnt = Inr n" "int k < n"
    and "ask_all R c0 (map ptype_query (py_range (int k))) = Some (names, c1)"
    and "list_all known_reply names"
    and "R (dev c1) (ptype_query (int k)) = (s, d)"
    and "sensor_code_of s = Inr sc" "\<not> known_sensor sc"
    and "send_cmd R c1 (ptype_query (int k)) = Some (res, c2)"
  shows "create_axes R ctrl =
           Some (Inl (case res of
                        Inl e \<Rightarrow> e
                      | Inr a \<Rightarrow> RuntimeError (no_axis_class (int k) sc)),
                 \<lparr>comm = c2, axes = map (\<lambda>i. \<lparr>axis_nr = int i\<rparr>) [0..<k]\<rparr>)"
proof -
  let ?ctrl0 = "\<lparr>comm = c0, axes = []\<rparr>"
  let ?rest = "int k # map int [Suc k..<nat n]"
  let ?ctrl1 = "\<lparr>comm = c1, axes = axes ?ctrl0 @ map (\<lambda>n. \<lparr>axis_nr = n\<rparr>) (py_range (int k))\<rparr>"
  have nc: "nchannels R (comm ctrl) = Some (Inr n, c0)"
    using nchannels_returns [OF assms(1)] assms(2) by simp
  have "create_axes_for R (py_range (int k) @ ?rest) ?ctrl0 = create_axes_for R ?rest ?ctrl1"
    using assms(4,5) by (intro create_axes_for_asked) simp_all
  moreover have "create_axes_for R ?rest ?ctrl1 =
      Some (Inl (case res of
                   Inl e \<Rightarrow> e
                 | Inr a \<Rightarrow> RuntimeError (no_axis_class (int k) sc)),
            \<lparr>comm = c2, axes = axes ?ctrl1\<rparr>)"
  proof (cases res)
    case (Inl e)
    with assms(9) show ?thesis by simp
  next
    case (Inr a)
    with assms(9) have r: "send_cmd R c1 (ptype_query (int k)) = Some (Inr a, c2)" by simp
    from send_cmd_reply [OF r] assms(6) have "a = s" by simp
    with r Inr assms(7,8) show ?thesis by (auto simp: known_sensor_def)
  qed
  ultimately show ?thesis using nc py_range_split [OF assms(3)]
    by (cases ctrl)
       (simp add: create_axes_def pop_all_empty py_range_int comp_def del: create_axes_for.simps)
qed

theorem create_axes_unknown_keeps_earlier_axes_witness:
  "create_axes scripted
     \<lparr>comm = \<lparr>dev = [''3'', ''0'', ''SR'', ''1'', ''0,info'', ''0'', ''ML'', ''0'', ''SL'', ''0''],
              trace = []\<rparr>,
      axes = [\<lparr>axis_nr = 7\<rparr>]\<rparr> =
   Some (Inl (RuntimeError (no_axis_class 1 ''ML'')),
         \<lparr>comm = \<lparr>dev = [''SL'', ''0''],
                  trace = [('':DEV:NOCH?'', ''3''), (ERR_COUN, ''0''),
                           ('':CHAN0:PTYPE:NAME?'', ''SR''), (ERR_COUN, ''1''),
                           (ERR_NEXT, ''0,info''), (ERR_COUN, ''0''),
                           ('':CHAN1:PTYPE:NAME?'', ''ML''), (ERR_COUN, ''0'')]\<rparr>,
          axes = [\<lparr>axis_nr = 0\<rparr>]\<rparr>)
   \<and> create_axes scripted
     \<lparr>comm = \<lparr>dev = [''3'', ''0'', ''SR'', ''0'', ''ML'', ''1'', ''129,No Sensor Present Error''],
              trace = []\<rparr>,
      axes = [\<lparr>axis_nr = 7\<rparr>]\<rparr> =
   Some (Inl (RuntimeError ''Error 129: No Sensor Present Error''),
         \<lparr>comm = \<lparr>dev = [],
                  trace = [('':DEV:NOCH?'', ''3''), (ERR_COUN, ''0''),
                           ('':CHAN0:PTYPE:NAME?'', ''SR''), (ERR_COUN, ''0''),
                           ('':CHAN1:PTYPE:NAME?'', ''ML''), (ERR_COUN, ''1''),
                           (ERR_NEXT, ''129,No Sensor Present Error'')]\<rparr>,
          axes = [\<lparr>axis_nr = 0\<rparr>]\<rparr>)"
proof
  let ?dk = "[''ML'', ''0'', ''SL'', ''0'']"
  let ?d0 = "''SR'' # ''1'' # ''0,info'' # ''0'' # ?dk"
  let ?ctrl = "\<lparr>comm = \<lparr>dev = ''3'' # ''0'' # ?d0, trace = []\<rparr>, axes = [\<lparr>axis_nr = 7\<rparr>]\<rparr>"
  let ?c0 = "\<lparr>dev = ?d0, trace = [('':DEV:NOCH?'', ''3''), (ERR_COUN, ''0'')]\<rparr>"
  let ?t1 = "[('':DEV:NOCH?'', ''3''), (ERR_COUN, ''0''),
              ('':CHAN0:PTYPE:NAME?'', ''SR''), (ERR_COUN, ''1''),
              (ERR_NEXT, ''0,info''), (ERR_COUN, ''0'')]"
  let ?c1 = "\<lparr>dev = ?dk, trace = ?t1\<rparr>"
  let ?c2 = "\<lparr>dev = [''SL'', ''0''],
             trace = ?t1 @ [('':CHAN1:PTYPE:NAME?'', ''ML''), (ERR_COUN, ''0'')]\<rparr>"
  have h1: "send_cmd scripted (comm ?ctrl) '':DEV:NOCH?'' = Some (Inr ''3'', ?c0)" by code_simp
  have h2: "py_int ''3'' = Inr 3" by code_simp
  have h3: "int 1 < 3" by simp
  have h4: "ask_all scripted ?c0 (map ptype_query (py_range (int 1))) = Some ([''SR''], ?c1)"
    by code_simp
  have h5: "list_all known_reply [''SR'']" by code_simp
  have h6: "scripted (dev ?c1) (ptype_query (int 1)) = (''ML'', [''0'', ''SL'', ''0''])" by simp
  have h7: "sensor_code_of ''ML'' = Inr ''ML''" by code_simp
  have h8: "\<not> known_sensor ''ML''" by code_simp
  have h9: "send_cmd scripted ?c1 (ptype_query (int 1)) = Some (Inr ''ML'', ?c2)" by code_simp
  have "create_axes scripted ?ctrl =
          Some (Inl (case (Inr ''ML'' :: py_error + string) of
                       Inl e \<Rightarrow> e
                     | Inr a \<Rightarrow> RuntimeError (no_axis_class (int 1) ''ML'')),
                \<lparr>comm = ?c2, axes = map (\<lambda>i. \<lparr>axis_nr = int i\<rparr>) [0..<1]\<rparr>)"
    by (rule create_axes_unknown_keeps_earlier_axes [OF h1 h2 h3 h4 h5 h6 h7 h8 h9])
  then show "create_axes scripted ?ctrl =
     Some (Inl (RuntimeError (no_axis_class 1 ''ML'')),
         \<lparr>comm = \<lparr>dev = [''SL'', ''0''],
                  trace = [('':DEV:NOCH?'', ''3''), (ERR_COUN, ''0''),
                           ('':CHAN0:PTYPE:NAME?'', ''SR''), (ERR_COUN, ''1''),
                           (ERR_NEXT, ''0,info''), (ERR_COUN, ''0''),
                           ('':CHAN1:PTYPE:NAME?'', ''ML''), (ERR_COUN, ''0'')]\<rparr>,
          axes = [\<lparr>axis_nr = 0\<rparr>]\<rparr>)"
    by simp
next
  let ?dk = "[''ML'', ''1'', ''129,No Sensor Present Error'']"
  let ?d0 = "''SR'' # ''0'' # ?dk"
  let ?ctrl = "\<lparr>comm = \<lparr>dev = ''3'' # ''0'' # ?d0, trace = []\<rparr>, axes = [\<lparr>axis_nr = 7\<rparr>]\<rparr>"
  let ?c0 = "\<lparr>dev = ?d0, trace = [('':DEV:NOCH?'', ''3''), (ERR_COUN, ''0'')]\<rparr>"
  let ?t1 = "[('':DEV:NOCH?'', ''3''), (ERR_COUN, ''0''),
              ('':CHAN0:PTYPE:NAME?'', ''SR''), (ERR_COUN, ''0'')]"
  let ?c1 = "\<lparr>dev = ?dk, trace = ?t1\<rparr>"
  let ?c2 = "\<lparr>dev = [] :: string list,
             trace = ?t1 @ [('':CHAN1:PTYPE:NAME?'', ''ML''), (ERR_COUN, ''1''),
                            (ERR_NEXT, ''129,No Sensor Present Error'')]\<rparr>"
  have h1: "send_cmd scripted (comm ?ctrl) '':DEV:NOCH?'' = Some (Inr ''3'', ?c0)" by code_simp
  have h2: "py_int ''3'' = Inr 3" by code_simp
  have h3: "int 1 < 3" by simp
  have h4: "ask_all scripted ?c0 (map ptype_query (py_range (int 1))) = Some ([''SR''], ?c1)"
    by code_simp
  have h5: "list_all known_reply [''SR'']" by code_simp
  have h6: "scripted (dev ?c1) (ptype_query (int 1))
              = (''ML'', [''1'', ''129,No Sensor Present Error''])" by simp
  have h7: "sensor_code_of ''ML'' = Inr ''ML''" by code_simp
  have h8: "\<not> known_sensor ''ML''" by code_simp
  have h9: "send_cmd scripted ?c1 (ptype_query (int 1))
              = Some (Inl (RuntimeError ''Error 129: No Sensor Present Error''), ?c2)"
    by code_simp
  have "create_axes scripted ?ctrl =
          Some (Inl (case (Inl (RuntimeError ''Error 129: No Sensor Present Error'') :: py_error + string) of
                       Inl e \<Rightarrow> e
                     | Inr a \<Rightarrow> RuntimeError (no_axis_class (int 1) ''ML'')),
                \<lparr>comm = ?c2, axes = map (\<lambda>i. \<lparr>axis_nr = int i\<rparr>) [0..<1]\<rparr>)"
    by (rule create_axes_unknown_keeps_earlier_axes [OF h1 h2 h3 h4 h5 h6 h7 h8 h9])
  then show "create_axes scripted ?ctrl =
     Some (Inl (RuntimeError ''Error 129: No Sensor Present Error''),
         \<lparr>comm = \<lparr>dev = [],
                  trace = [('':DEV:NOCH?'', ''3''), (ERR_COUN, ''0''),
                           ('':CHAN0:PTYPE:NAME?'', ''SR''), (ERR_COUN, ''0''),
                           ('':CHAN1:PTYPE:NAME?'', ''ML''), (ERR_COUN, ''1''),
                           (ERR_NEXT, ''129,No Sensor Present Error'')]\<rparr>,
          axes = [\<lparr>axis_nr = 0\<rparr>]\<rparr>)"
    by simp
qed

text \<open>
  Claim C4 as it is stated fails: with two channels, the first \<open>SL\<close> and the second the
  unknown \<open>XX\<close>, the enumeration fails and the controller is left with the axis of
  channel 0.
\<close>

theorem create_axes_partial_list:
  "create_axes scripted
     \<lparr>comm = \<lparr>dev = [''2'', ''0'', ''SL'', ''0'', ''XX'', ''0''], trace = []\<rparr>, axes = []\<rparr> =
   Some (Inl (RuntimeError
               (''Failed to create axis 1'' @ [CHR 0x0A]
                  @ ''There is not axis class for sensor code XX'')),
         \<lparr>comm = \<lparr>dev = [],
                  trace = [('':DEV:NOCH?'', ''2''), (ERR_COUN, ''0''),
                           ('':CHAN0:PTYPE:NAME?'', ''SL''), (ERR_COUN, ''0''),
                           ('':CHAN1:PTYPE:NAME?'', ''XX''), (ERR_COUN, ''0'')]\<rparr>,
          axes = [\<lparr>axis_nr = 0\<rparr>]\<rparr>)"
  by code_simp

end
